theory Spec2Isabelle
  imports
    Complex_Main
    "HOL-Library.Char_ord"
    "HOL-Library.List_Lexorder"
    "HOL-Library.Product_Lexorder"
    "HOL-Library.Multiset"
begin

section \<open>Python values used by \<^verbatim>\<open>satpy/dataset.py\<close>\<close>

text \<open>
  The module is dynamically typed. The value universe of the model holds the kinds of value
  the module itself constructs or inspects:
  \<^item> \<^verbatim>\<open>None\<close>;
  \<^item> \<^verbatim>\<open>int\<close> and \<^verbatim>\<open>float\<close> numbers (floats are idealised as reals: no rounding, no NaN,
    no infinite float stored in a value). \<^verbatim>\<open>bool\<close> is not modelled;
  \<^item> \<^verbatim>\<open>str\<close>, as the list of its UTF-8 bytes (which keeps \<^verbatim>\<open>==\<close> and \<^verbatim>\<open><\<close> of code points);
  \<^item> a member of a \<^verbatim>\<open>ValueList\<close> (an \<^verbatim>\<open>IntEnum\<close>): its \<^verbatim>\<open>name\<close> and its \<^verbatim>\<open>value\<close>;
  \<^item> plain \<^verbatim>\<open>tuple\<close> and \<^verbatim>\<open>list\<close>;
  \<^item> \<^verbatim>\<open>ModifierTuple\<close> (a \<^verbatim>\<open>tuple\<close> subclass);
  \<^item> \<^verbatim>\<open>WavelengthRange\<close> (a named tuple \<^verbatim>\<open>min central max unit\<close>, hence a \<^verbatim>\<open>tuple\<close>
    subclass of length 4; any value may sit in a component, as in Python).
\<close>

datatype pyval =
    PNone
  | PInt int
  | PFloat real
  | PStr string
  | PEnum string nat
  | PTuple "pyval list"
  | PList "pyval list"
  | PMod "pyval list"
  | PWl pyval pyval pyval pyval

text \<open>Exceptions raised by the module, as values. The string is the part of the message
  (or the operation) that tells two raises of the same class apart.\<close>

datatype error =
    ValueError string
  | TypeError string
  | KeyError string
  | IndexError string
  | NotImplementedError string

text \<open>\<^verbatim>\<open>isinstance(v, numbers.Number)\<close> and the numeric value: an \<^verbatim>\<open>IntEnum\<close> member is an
  \<^verbatim>\<open>int\<close> and counts with its \<^verbatim>\<open>value\<close> in arithmetic and in the ordering operators.\<close>

fun num_of :: "pyval \<Rightarrow> real option" where
  "num_of (PInt i) = Some (real_of_int i)"
| "num_of (PFloat r) = Some r"
| "num_of (PEnum n v) = Some (real v)"
| "num_of _ = None"

definition is_number :: "pyval \<Rightarrow> bool" where
  "is_number v = (num_of v \<noteq> None)"

text \<open>\<^verbatim>\<open>isinstance(v, tuple)\<close> and the items of the tuple.\<close>

fun tuple_items :: "pyval \<Rightarrow> pyval list option" where
  "tuple_items (PTuple xs) = Some xs"
| "tuple_items (PMod xs) = Some xs"
| "tuple_items (PWl a b c d) = Some [a, b, c, d]"
| "tuple_items _ = None"

definition is_tuple :: "pyval \<Rightarrow> bool" where
  "is_tuple v = (tuple_items v \<noteq> None)"

text \<open>A weight that counts every node of a value, for the termination of the comparisons.\<close>

fun wt :: "pyval \<Rightarrow> nat" where
  "wt (PTuple xs) = Suc (sum_list (map wt xs))"
| "wt (PList xs) = Suc (sum_list (map wt xs))"
| "wt (PMod xs) = Suc (sum_list (map wt xs))"
| "wt (PWl a b c d) = Suc (wt a + wt b + wt c + wt d)"
| "wt _ = Suc 0"

lemma wt_pos [simp]: "0 < wt v"
  by (cases v) simp_all

section \<open>Rich comparison\<close>

text \<open>
  \<^verbatim>\<open>a == b\<close>, \<^verbatim>\<open>a < b\<close>, \<^verbatim>\<open>a > b\<close>, \<^verbatim>\<open>a <= b\<close>, \<^verbatim>\<open>a >= b\<close> follow CPython's protocol: if the type of
  \<^verbatim>\<open>b\<close> is a proper subclass of the type of \<^verbatim>\<open>a\<close>, the reflected method of \<^verbatim>\<open>b\<close> is tried first;
  then the method of \<^verbatim>\<open>a\<close>; then the reflected method of \<^verbatim>\<open>b\<close>; when every method answers
  \<^verbatim>\<open>NotImplemented\<close>, \<^verbatim>\<open>==\<close> falls back to identity (two values of different kinds are
  different objects) and an ordering operator raises \<^verbatim>\<open>TypeError\<close>.

  The methods are those of the builtin types and the overrides of this module:
  \<^item> \<^verbatim>\<open>ValueList.__eq__\<close> is \<^verbatim>\<open>self.name == other\<close>: a member equals the string of its name
    and any member of that name, and nothing else;
  \<^item> \<^verbatim>\<open>ModifierTuple.__eq__\<close> turns a list into a tuple and compares as tuples;
  \<^item> \<^verbatim>\<open>WavelengthRange.__eq__\<close>: \<^verbatim>\<open>None\<close> gives False; a number \<^verbatim>\<open>other\<close> gives
    \<^verbatim>\<open>other in self\<close>, that is \<^verbatim>\<open>self.min <= other <= self.max\<close>; a tuple or list of
    length 3 gives \<^verbatim>\<open>self[:3] == other\<close>; anything else is \<^verbatim>\<open>tuple.__eq__\<close>;
  \<^item> \<^verbatim>\<open>WavelengthRange.__lt__\<close> returns False and \<^verbatim>\<open>__gt__\<close> returns True on \<^verbatim>\<open>None\<close>, and
    both are the tuple's otherwise.

  Tuples and lists compare by the first index at which the items are not \<^verbatim>\<open>==\<close>; a list
  compares the lengths first for \<^verbatim>\<open>==\<close>. The items are compared through
  \<^verbatim>\<open>PyObject_RichCompareBool\<close>, which takes identical objects for equal; the model compares
  values, and \<open>py_eq_refl\<close> below shows that a value is always \<^verbatim>\<open>==\<close> to itself, so the
  shortcut changes nothing.
\<close>

datatype cmpop = EQ | LT | GT | LE | GE

fun num_cmp :: "cmpop \<Rightarrow> real \<Rightarrow> real \<Rightarrow> bool" where
  "num_cmp EQ x y = (x = y)"
| "num_cmp LT x y = (x < y)"
| "num_cmp GT x y = (x > y)"
| "num_cmp LE x y = (x \<le> y)"
| "num_cmp GE x y = (x \<ge> y)"

fun str_cmp :: "cmpop \<Rightarrow> string \<Rightarrow> string \<Rightarrow> bool" where
  "str_cmp EQ x y = (x = y)"
| "str_cmp LT x y = (x < y)"
| "str_cmp GT x y = (x > y)"
| "str_cmp LE x y = (x \<le> y)"
| "str_cmp GE x y = (x \<ge> y)"

text \<open>The reflected operator: \<^verbatim>\<open>a < b\<close> asks \<^verbatim>\<open>b.__gt__(a)\<close>.\<close>

fun swap_op :: "cmpop \<Rightarrow> cmpop" where
  "swap_op EQ = EQ"
| "swap_op LT = GT"
| "swap_op GT = LT"
| "swap_op LE = GE"
| "swap_op GE = LE"

text \<open>What a sequence comparison answers when one sequence ran out: the comparison of the
  lengths.\<close>

fun len_cmp :: "cmpop \<Rightarrow> nat \<Rightarrow> nat \<Rightarrow> bool" where
  "len_cmp EQ m n = (m = n)"
| "len_cmp LT m n = (m < n)"
| "len_cmp GT m n = (m > n)"
| "len_cmp LE m n = (m \<le> n)"
| "len_cmp GE m n = (m \<ge> n)"

definition unorderable :: "error + bool" where
  "unorderable = Inl (TypeError ''not supported between instances'')"

function py_cmp :: "cmpop \<Rightarrow> pyval \<Rightarrow> pyval \<Rightarrow> error + bool"
  and py_seq_cmp :: "cmpop \<Rightarrow> pyval list \<Rightarrow> pyval list \<Rightarrow> error + bool"
where
  "py_cmp op PNone b =
     (case b of
        PNone \<Rightarrow> (if op = EQ then Inr True else unorderable)
      | PWl mn c mx u \<Rightarrow> (if op = EQ then Inr False else if op = LT then Inr True
                          else if op = GT then Inr False else unorderable)
      | _ \<Rightarrow> (if op = EQ then Inr False else unorderable))"
| "py_cmp op (PInt i) b =
     (case b of
        PInt j \<Rightarrow> Inr (num_cmp op (real_of_int i) (real_of_int j))
      | PFloat r \<Rightarrow> Inr (num_cmp op (real_of_int i) r)
      | PEnum n v \<Rightarrow> (if op = EQ then Inr False else Inr (num_cmp op (real_of_int i) (real v)))
      | PWl mn c mx u \<Rightarrow>
          (if op = EQ then
             (case py_cmp LE mn (PInt i) of
                Inl e \<Rightarrow> Inl e
              | Inr t \<Rightarrow> (if t then py_cmp LE (PInt i) mx else Inr False))
           else unorderable)
      | _ \<Rightarrow> (if op = EQ then Inr False else unorderable))"
| "py_cmp op (PFloat r) b =
     (case b of
        PInt j \<Rightarrow> Inr (num_cmp op r (real_of_int j))
      | PFloat s \<Rightarrow> Inr (num_cmp op r s)
      | PEnum n v \<Rightarrow> Inr (num_cmp op r (real v))
      | PWl mn c mx u \<Rightarrow>
          (if op = EQ then
             (case py_cmp LE mn (PFloat r) of
                Inl e \<Rightarrow> Inl e
              | Inr t \<Rightarrow> (if t then py_cmp LE (PFloat r) mx else Inr False))
           else unorderable)
      | _ \<Rightarrow> (if op = EQ then Inr False else unorderable))"
| "py_cmp op (PStr s) b =
     (case b of
        PStr t \<Rightarrow> Inr (str_cmp op s t)
      | PEnum n v \<Rightarrow> (if op = EQ then Inr (n = s) else unorderable)
      | _ \<Rightarrow> (if op = EQ then Inr False else unorderable))"
| "py_cmp op (PEnum n v) b =
     (case b of
        PInt j \<Rightarrow> (if op = EQ then Inr False else Inr (num_cmp op (real v) (real_of_int j)))
      | PFloat r \<Rightarrow> (if op = EQ then Inr False else Inr (num_cmp op (real v) r))
      | PEnum m w \<Rightarrow> (if op = EQ then Inr (n = m) else Inr (num_cmp op (real v) (real w)))
      | PStr t \<Rightarrow> (if op = EQ then Inr (n = t) else unorderable)
      | _ \<Rightarrow> (if op = EQ then Inr False else unorderable))"
| "py_cmp op (PTuple xs) b =
     (case b of
        PTuple ys \<Rightarrow> py_seq_cmp op xs ys
      | PMod ys \<Rightarrow> py_seq_cmp (swap_op op) ys xs
      | PWl mn c mx u \<Rightarrow>
          (if op = EQ \<and> length xs = 3 then py_seq_cmp EQ [mn, c, mx] xs
           else py_seq_cmp (swap_op op) [mn, c, mx, u] xs)
      | _ \<Rightarrow> (if op = EQ then Inr False else unorderable))"
| "py_cmp op (PList xs) b =
     (case b of
        PList ys \<Rightarrow> (if op = EQ \<and> length xs \<noteq> length ys then Inr False
                     else py_seq_cmp op xs ys)
      | PMod ys \<Rightarrow> (if op = EQ then py_seq_cmp EQ ys xs else unorderable)
      | _ \<Rightarrow> (if op = EQ then Inr False else unorderable))"
| "py_cmp op (PMod xs) b =
     (case b of
        PTuple ys \<Rightarrow> py_seq_cmp op xs ys
      | PMod ys \<Rightarrow> py_seq_cmp op xs ys
      | PWl mn c mx u \<Rightarrow> py_seq_cmp op xs [mn, c, mx, u]
      | PList ys \<Rightarrow> (if op = EQ then py_seq_cmp EQ xs ys else unorderable)
      | _ \<Rightarrow> (if op = EQ then Inr False else unorderable))"
| "py_cmp op (PWl mn c mx u) b =
     (case b of
        PNone \<Rightarrow> (if op = EQ then Inr False else if op = LT then Inr False
                  else if op = GT then Inr True else unorderable)
      | PInt j \<Rightarrow>
          (if op = EQ then
             (case py_cmp LE mn (PInt j) of
                Inl e \<Rightarrow> Inl e
              | Inr t \<Rightarrow> (if t then py_cmp LE (PInt j) mx else Inr False))
           else unorderable)
      | PFloat r \<Rightarrow>
          (if op = EQ then
             (case py_cmp LE mn (PFloat r) of
                Inl e \<Rightarrow> Inl e
              | Inr t \<Rightarrow> (if t then py_cmp LE (PFloat r) mx else Inr False))
           else unorderable)
      | PEnum n v \<Rightarrow>
          (if op = EQ then
             (case py_cmp LE mn (PEnum n v) of
                Inl e \<Rightarrow> Inl e
              | Inr t \<Rightarrow> (if t then py_cmp LE (PEnum n v) mx else Inr False))
           else unorderable)
      | PTuple ys \<Rightarrow>
          (if op = EQ \<and> length ys = 3 then py_seq_cmp EQ [mn, c, mx] ys
           else py_seq_cmp op [mn, c, mx, u] ys)
      | PMod ys \<Rightarrow>
          (if op = EQ \<and> length ys = 3 then py_seq_cmp EQ ys [mn, c, mx]
           else py_seq_cmp op [mn, c, mx, u] ys)
      | PWl mn' c' mx' u' \<Rightarrow> py_seq_cmp op [mn, c, mx, u] [mn', c', mx', u']
      | _ \<Rightarrow> (if op = EQ then Inr False else unorderable))"
| "py_seq_cmp op [] [] = Inr (len_cmp op 0 0)"
| "py_seq_cmp op [] (y # ys) = Inr (len_cmp op 0 (Suc 0))"
| "py_seq_cmp op (x # xs) [] = Inr (len_cmp op (Suc 0) 0)"
| "py_seq_cmp op (x # xs) (y # ys) =
     (case py_cmp EQ x y of
        Inl e \<Rightarrow> Inl e
      | Inr t \<Rightarrow> (if t then py_seq_cmp op xs ys
                  else if op = EQ then Inr False else py_cmp op x y))"
  by pat_completeness auto
termination
  by (relation "measure (\<lambda>a. case a of
          Inl (op, x, y) \<Rightarrow> 2 * (wt x + wt y)
        | Inr (op, xs, ys) \<Rightarrow> Suc (2 * (sum_list (map wt xs) + sum_list (map wt ys))))")
     auto

declare py_cmp.simps [simp del]

text \<open>\<^verbatim>\<open>a != b\<close>. Every \<^verbatim>\<open>__ne__\<close> of the universe mirrors the \<^verbatim>\<open>__eq__\<close> of its type
  (\<^verbatim>\<open>ValueList.__ne__\<close> is \<^verbatim>\<open>self.name != other\<close>, \<^verbatim>\<open>WavelengthRange.__ne__\<close> is
  \<^verbatim>\<open>not self == other\<close>, \<^verbatim>\<open>ModifierTuple.__ne__\<close> converts a list like \<^verbatim>\<open>__eq__\<close>), so the
  operator is the negation of \<^verbatim>\<open>==\<close> and raises where \<^verbatim>\<open>==\<close> raises.\<close>

definition py_ne :: "pyval \<Rightarrow> pyval \<Rightarrow> error + bool" where
  "py_ne a b = (case py_cmp EQ a b of Inl e \<Rightarrow> Inl e | Inr t \<Rightarrow> Inr (\<not> t))"

section \<open>WavelengthRange\<close>

text \<open>A distance is a finite number or \<^verbatim>\<open>np.inf\<close>.\<close>

datatype dist = Fin real | Infty

text \<open>\<^verbatim>\<open>abs(a - b)\<close>: defined on numbers, \<^verbatim>\<open>TypeError\<close> on anything else of the universe.\<close>

definition py_abs_diff :: "pyval \<Rightarrow> pyval \<Rightarrow> error + dist" where
  "py_abs_diff a b =
     (case (num_of a, num_of b) of
        (Some x, Some y) \<Rightarrow> Inr (Fin \<bar>x - y\<bar>)
      | _ \<Rightarrow> Inl (TypeError ''unsupported operand type(s) for -''))"

text \<open>\<^verbatim>\<open>value[1]\<close>.\<close>

definition second_item :: "pyval list \<Rightarrow> error + pyval" where
  "second_item ys =
     (case ys of _ # y # _ \<Rightarrow> Inr y | _ \<Rightarrow> Inl (IndexError ''index out of range''))"

text \<open>\<^verbatim>\<open>WavelengthRange.__contains__\<close>, for \<^verbatim>\<open>other in self\<close>. Only a \<^verbatim>\<open>WavelengthRange\<close> has a
  \<^verbatim>\<open>unit\<close> attribute; for any other non-number the \<^verbatim>\<open>AttributeError\<close> is suppressed.\<close>

definition wl_contains :: "pyval \<Rightarrow> pyval \<Rightarrow> pyval \<Rightarrow> pyval \<Rightarrow> pyval \<Rightarrow> error + bool" where
  "wl_contains mn c mx u other =
     (case other of
        PNone \<Rightarrow> Inr False
      | PWl mn' c' mx' u' \<Rightarrow>
          (case py_ne u u' of
             Inl e \<Rightarrow> Inl e
           | Inr t \<Rightarrow>
               (if t then Inl (NotImplementedError
                                 ''Can't compare wavelength ranges with different units.'')
                else
                  (case py_cmp LE mn mn' of
                     Inl e \<Rightarrow> Inl e
                   | Inr t' \<Rightarrow> (if t' then py_cmp GE mx mx' else Inr False))))
      | _ \<Rightarrow>
          (if is_number other then
             (case py_cmp LE mn other of
                Inl e \<Rightarrow> Inl e
              | Inr t \<Rightarrow> (if t then py_cmp LE other mx else Inr False))
           else Inr False))"

text \<open>\<^verbatim>\<open>WavelengthRange.distance\<close>. Only a \<^verbatim>\<open>WavelengthRange\<close> has a \<^verbatim>\<open>central\<close> attribute.\<close>

definition wl_distance :: "pyval \<Rightarrow> pyval \<Rightarrow> pyval \<Rightarrow> pyval \<Rightarrow> pyval \<Rightarrow> error + dist" where
  "wl_distance mn c mx u val =
     (case py_cmp EQ (PWl mn c mx u) val of
        Inl e \<Rightarrow> Inl e
      | Inr t \<Rightarrow>
          (if t then
             (case val of
                PWl mn' c' mx' u' \<Rightarrow> py_abs_diff c' c
              | PTuple ys \<Rightarrow>
                  (case second_item ys of Inl e \<Rightarrow> Inl e | Inr y \<Rightarrow> py_abs_diff y c)
              | PMod ys \<Rightarrow>
                  (case second_item ys of Inl e \<Rightarrow> Inl e | Inr y \<Rightarrow> py_abs_diff y c)
              | PList ys \<Rightarrow>
                  (case second_item ys of Inl e \<Rightarrow> Inl e | Inr y \<Rightarrow> py_abs_diff y c)
              | _ \<Rightarrow> py_abs_diff val c)
           else Inr Infty))"

text \<open>An \<^verbatim>\<open>int\<close> or a \<^verbatim>\<open>float\<close> that is not an enumeration member.\<close>

definition is_bare_number :: "pyval \<Rightarrow> bool" where
  "is_bare_number v = (case v of PInt _ \<Rightarrow> True | PFloat _ \<Rightarrow> True | _ \<Rightarrow> False)"

section \<open>The metadata combiner\<close>

text \<open>
  \<^verbatim>\<open>combine_metadata\<close> compares attribute values by identity, so its inputs are modelled with
  an explicit identity: a value of an attribute dictionary is a pair of an address and the
  object at that address (two values are the same object iff the addresses are equal).
  The objects are
  \<^item> a plain value of the universe above (no \<^verbatim>\<open>__array__\<close> attribute);
  \<^item> a \<^verbatim>\<open>datetime\<close>, as its timestamp;
  \<^item> an array with a shape and its data (numpy, dask and xarray arrays: they have
    \<^verbatim>\<open>__array__\<close>, they are \<^verbatim>\<open>Collection\<close>s, \<^verbatim>\<open>len\<close> is the first dimension and raises
    \<^verbatim>\<open>TypeError\<close> on a 0-d array, and their items are arrays again);
  \<^item> a numpy scalar (it has \<^verbatim>\<open>__array__\<close> and is no \<^verbatim>\<open>Collection\<close>);
  \<^item> a list of arrays, each with its own address (\<^verbatim>\<open>ancillary_variables\<close>).
\<close>

datatype obj =
    OVal pyval
  | ODatetime real
  | OArray "nat list" "real list"
  | ONpScalar real
  | OArrList "(nat \<times> nat list \<times> real list) list"

type_synonym ref = "nat \<times> obj"

text \<open>\<^verbatim>\<open>hasattr(val, "__array__")\<close> and \<^verbatim>\<open>isinstance(val, datetime)\<close>.\<close>

definition has_array :: "ref \<Rightarrow> bool" where
  "has_array r = (case snd r of OArray _ _ \<Rightarrow> True | ONpScalar _ \<Rightarrow> True | _ \<Rightarrow> False)"

definition is_datetime :: "ref \<Rightarrow> bool" where
  "is_datetime r = (case snd r of ODatetime _ \<Rightarrow> True | _ \<Rightarrow> False)"

text \<open>One item of the \<^verbatim>\<open>list_of_arrays\<close> comprehension:
  \<^verbatim>\<open>isinstance(val, Collection) and len(val) > 0 and all([hasattr(subval, "__array__") ...])\<close>.
  A plain collection (string, tuple, list) holds plain values only, so it gives False whether
  it is empty or not.\<close>

definition is_list_of_arrays :: "ref \<Rightarrow> error + bool" where
  "is_list_of_arrays r =
     (case snd r of
        OArray shape _ \<Rightarrow>
          (case shape of
             [] \<Rightarrow> Inl (TypeError ''len() of unsized object'')
           | n # _ \<Rightarrow> Inr (n > 0))
      | OArrList xs \<Rightarrow> Inr (xs \<noteq> [])
      | _ \<Rightarrow> Inr False)"

text \<open>A list comprehension whose items may raise: the first raise wins.\<close>

fun sequence :: "(error + 'a) list \<Rightarrow> error + 'a list" where
  "sequence [] = Inr []"
| "sequence (x # xs) =
     (case x of
        Inl e \<Rightarrow> Inl e
      | Inr v \<Rightarrow> (case sequence xs of Inl e \<Rightarrow> Inl e | Inr vs \<Rightarrow> Inr (v # vs)))"

text \<open>\<^verbatim>\<open>a is b\<close>.\<close>

definition same_object :: "ref \<Rightarrow> ref \<Rightarrow> bool" where
  "same_object a b = (fst a = fst b)"

definition share_metadata_key_array :: "ref list \<Rightarrow> bool" where
  "share_metadata_key_array vals =
     (case vals of [] \<Rightarrow> True | first # rest \<Rightarrow> list_all (\<lambda>v. same_object v first) rest)"

text \<open>\<^verbatim>\<open>_share_metadata_key_list_arrays\<close> zips each value with the first one and compares the
  items by identity. The items of a list of arrays have addresses; an item of a plain
  collection is identified by its container and index (two plain collections are taken to
  share no item); iterating an array makes new objects.\<close>

datatype ident = Tracked nat | Inside nat nat | Fresh

fun same_ident :: "ident \<Rightarrow> ident \<Rightarrow> bool" where
  "same_ident (Tracked a) (Tracked b) = (a = b)"
| "same_ident (Inside a i) (Inside b j) = (a = b \<and> i = j)"
| "same_ident _ _ = False"

definition not_iterable :: "error + ident list" where
  "not_iterable = Inl (TypeError ''object is not iterable'')"

definition iter_idents :: "ref \<Rightarrow> error + ident list" where
  "iter_idents r =
     (case snd r of
        OArrList xs \<Rightarrow> Inr (map (\<lambda>x. Tracked (fst x)) xs)
      | OArray shape _ \<Rightarrow>
          (case shape of [] \<Rightarrow> Inl (TypeError ''iteration over a 0-d array'')
           | n # _ \<Rightarrow> Inr (replicate n Fresh))
      | OVal v \<Rightarrow>
          (case v of
             PStr s \<Rightarrow> Inr (map (Inside (fst r)) [0 ..< length s])
           | PList xs \<Rightarrow> Inr (map (Inside (fst r)) [0 ..< length xs])
           | _ \<Rightarrow>
             (case tuple_items v of
                Some xs \<Rightarrow> Inr (map (Inside (fst r)) [0 ..< length xs])
              | None \<Rightarrow> not_iterable))
      | _ \<Rightarrow> not_iterable)"

fun share_list_arrays_loop :: "ref \<Rightarrow> ref list \<Rightarrow> error + bool" where
  "share_list_arrays_loop first [] = Inr True"
| "share_list_arrays_loop first (v # vs) =
     (case iter_idents v of
        Inl e \<Rightarrow> Inl e
      | Inr xs \<Rightarrow>
          (case iter_idents first of
             Inl e \<Rightarrow> Inl e
           | Inr ys \<Rightarrow>
               (if list_all (\<lambda>(a, b). same_ident a b) (zip xs ys)
                then share_list_arrays_loop first vs
                else Inr False)))"

definition share_metadata_key_list_arrays :: "ref list \<Rightarrow> error + bool" where
  "share_metadata_key_list_arrays vals =
     (case vals of [] \<Rightarrow> Inr True | first # rest \<Rightarrow> share_list_arrays_loop first rest)"

text \<open>\<^verbatim>\<open>s in k\<close> on strings.\<close>

fun str_contains :: "string \<Rightarrow> string \<Rightarrow> bool" where
  "str_contains s [] = (s = [])"
| "str_contains s (c # cs) = (take (length s) (c # cs) = s \<or> str_contains s cs)"

text \<open>\<^verbatim>\<open>val == values[0]\<close> in the last branch of \<^verbatim>\<open>_share_metadata_key\<close>. That branch is only
  reached when no value has \<^verbatim>\<open>__array__\<close> and no value is a non-empty list of arrays, so the
  values are plain values, datetimes and empty lists; a \<^verbatim>\<open>datetime\<close> equals only a
  \<^verbatim>\<open>datetime\<close> of the same instant. The comparison of arrays is not modelled and is
  never evaluated there.\<close>

definition as_plain :: "obj \<Rightarrow> pyval option" where
  "as_plain x = (case x of OVal v \<Rightarrow> Some v | OArrList [] \<Rightarrow> Some (PList []) | _ \<Rightarrow> None)"

definition obj_eq :: "ref \<Rightarrow> ref \<Rightarrow> error + bool" where
  "obj_eq a b =
     (case (snd a, snd b) of
        (ODatetime s, ODatetime t) \<Rightarrow> Inr (s = t)
      | (ODatetime s, _) \<Rightarrow> Inr False
      | (_, ODatetime t) \<Rightarrow> Inr False
      | (x, y) \<Rightarrow>
          (case (as_plain x, as_plain y) of
             (Some v, Some w) \<Rightarrow> py_cmp EQ v w
           | _ \<Rightarrow> Inl (ValueError ''comparison of arrays'')))"

fun all_equal_first :: "ref \<Rightarrow> ref list \<Rightarrow> error + bool" where
  "all_equal_first first [] = Inr True"
| "all_equal_first first (v # vs) =
     (case obj_eq v first of
        Inl e \<Rightarrow> Inl e
      | Inr t \<Rightarrow> (if t then all_equal_first first vs else Inr False))"

text \<open>\<^verbatim>\<open>'time' in k and isinstance(values[0], datetime) and average_times\<close>.\<close>

definition first_is_datetime :: "ref list \<Rightarrow> error + bool" where
  "first_is_datetime vals =
     (case vals of [] \<Rightarrow> Inl (IndexError ''list index out of range'')
      | first # _ \<Rightarrow> Inr (is_datetime first))"

definition takes_average :: "string \<Rightarrow> ref list \<Rightarrow> bool \<Rightarrow> error + bool" where
  "takes_average k vals average_times =
     (if str_contains ''time'' k then
        (case first_is_datetime vals of
           Inl e \<Rightarrow> Inl e
         | Inr t \<Rightarrow> Inr (t \<and> average_times))
      else Inr False)"

text \<open>\<^verbatim>\<open>_share_metadata_key\<close>. Both \<^verbatim>\<open>any_arrays\<close> and \<^verbatim>\<open>list_of_arrays\<close> are computed before
  the branches, as list comprehensions over all values.\<close>

definition share_metadata_key :: "string \<Rightarrow> ref list \<Rightarrow> bool \<Rightarrow> error + bool" where
  "share_metadata_key k vals average_times =
     (let any_arrays = list_ex has_array vals in
      case sequence (map is_list_of_arrays vals) of
        Inl e \<Rightarrow> Inl e
      | Inr flags \<Rightarrow>
          (let list_of_arrays = list_ex id flags in
           if any_arrays then Inr (share_metadata_key_array vals)
           else if list_of_arrays then share_metadata_key_list_arrays vals
           else
             (case takes_average k vals average_times of
                Inl e \<Rightarrow> Inl e
              | Inr t \<Rightarrow>
                  (if t then Inr True
                   else (case vals of [] \<Rightarrow> Inr True
                         | first # rest \<Rightarrow> all_equal_first first rest)))))"

text \<open>\<^verbatim>\<open>average_datetimes\<close>: \<^verbatim>\<open>datetime.timestamp\<close> raises on anything but a \<^verbatim>\<open>datetime\<close>.\<close>

definition timestamp :: "ref \<Rightarrow> error + real" where
  "timestamp r =
     (case snd r of
        ODatetime t \<Rightarrow> Inr t
      | _ \<Rightarrow> Inl (TypeError ''descriptor timestamp requires a datetime object''))"

definition average_datetimes :: "ref list \<Rightarrow> error + real" where
  "average_datetimes dt_list =
     (case sequence (map timestamp dt_list) of
        Inl e \<Rightarrow> Inl e
      | Inr stamps \<Rightarrow>
          (if stamps = [] then Inl (ValueError ''division by zero'')
           else Inr (sum_list stamps / real (length stamps))))"

text \<open>An argument of \<^verbatim>\<open>combine_metadata\<close>: a \<^verbatim>\<open>dict\<close>, an object with an \<^verbatim>\<open>attrs\<close> dictionary, or
  anything else (which the loop skips). A dictionary is the list of its items.\<close>

datatype mdobj =
    MDict "(string \<times> ref) list"
  | MAttrs "(string \<times> ref) list"
  | MOther

fun metadata_dict :: "mdobj \<Rightarrow> (string \<times> ref) list option" where
  "metadata_dict (MDict d) = Some d"
| "metadata_dict (MAttrs d) = Some d"
| "metadata_dict MOther = None"

text \<open>The first loop: \<^verbatim>\<open>shared_keys\<close> (\<^verbatim>\<open>None\<close> until a dictionary shows up) and
  \<^verbatim>\<open>info_dicts\<close>.\<close>

fun gather :: "mdobj list \<Rightarrow> string set option \<Rightarrow> (string \<times> ref) list list
                \<Rightarrow> string set option \<times> (string \<times> ref) list list" where
  "gather [] shared info_dicts = (shared, info_dicts)"
| "gather (m # ms) shared info_dicts =
     (case metadata_dict m of
        None \<Rightarrow> gather ms shared info_dicts
      | Some d \<Rightarrow>
          gather ms
            (case shared of
               None \<Rightarrow> Some (set (map fst d))
             | Some ks \<Rightarrow> Some (ks \<inter> set (map fst d)))
            (info_dicts @ [d]))"

definition getitem :: "(string \<times> ref) list \<Rightarrow> string \<Rightarrow> error + ref" where
  "getitem d k = (case map_of d k of None \<Rightarrow> Inl (KeyError k) | Some v \<Rightarrow> Inr v)"

text \<open>A value of the result: the first input's object, or a new averaged datetime.\<close>

datatype rval = First ref | Averaged real

text \<open>The second loop, over the keys in the order Python iterates the set.\<close>

fun combine_loop :: "(string \<times> ref) list list \<Rightarrow> bool \<Rightarrow> string list
     \<Rightarrow> (string \<times> rval) list \<Rightarrow> error + (string \<times> rval) list" where
  "combine_loop info_dicts average_times [] shared_info = Inr shared_info"
| "combine_loop info_dicts average_times (k # ks) shared_info =
     (case sequence (map (\<lambda>nfo. getitem nfo k) info_dicts) of
        Inl e \<Rightarrow> Inl e
      | Inr vals \<Rightarrow>
          (case share_metadata_key k vals average_times of
             Inl e \<Rightarrow> Inl e
           | Inr t \<Rightarrow>
               (if t then
                  (case takes_average k vals average_times of
                     Inl e \<Rightarrow> Inl e
                   | Inr avg \<Rightarrow>
                       (if avg then
                          (case average_datetimes vals of
                             Inl e \<Rightarrow> Inl e
                           | Inr d \<Rightarrow>
                               combine_loop info_dicts average_times ks
                                 (shared_info @ [(k, Averaged d)]))
                        else
                          (case vals of
                             [] \<Rightarrow> Inl (IndexError ''list index out of range'')
                           | first # _ \<Rightarrow>
                               combine_loop info_dicts average_times ks
                                 (shared_info @ [(k, First first)]))))
                else combine_loop info_dicts average_times ks shared_info)))"

text \<open>Python iterates a set in an order of its own: \<open>key_order\<close> is that order, a list of
  the elements of \<^verbatim>\<open>shared_keys\<close>. Iterating \<^verbatim>\<open>None\<close> raises \<^verbatim>\<open>TypeError\<close>.\<close>

definition iteration_of :: "string list \<Rightarrow> string set \<Rightarrow> bool" where
  "iteration_of key_order ks = (distinct key_order \<and> set key_order = ks)"

definition combine_metadata :: "string list \<Rightarrow> mdobj list \<Rightarrow> bool
     \<Rightarrow> error + (string \<times> rval) list" where
  "combine_metadata key_order metadata_objects average_times =
     (case gather metadata_objects None [] of
        (None, info_dicts) \<Rightarrow> Inl (TypeError ''NoneType object is not iterable'')
      | (Some ks, info_dicts) \<Rightarrow> combine_loop info_dicts average_times key_order [])"

text \<open>The values the inputs hold under one key, as the second loop collects them.\<close>

definition values_of :: "(string \<times> ref) list list \<Rightarrow> string \<Rightarrow> error + ref list" where
  "values_of info_dicts k = sequence (map (\<lambda>nfo. getitem nfo k) info_dicts)"

section \<open>Dictionaries\<close>

text \<open>A \<^verbatim>\<open>dict\<close> with string keys is the list of its items in insertion order, the keys
  distinct. \<^verbatim>\<open>d.get(k, dflt)\<close>, \<^verbatim>\<open>k in d\<close> and \<^verbatim>\<open>d[k] = v\<close>.\<close>

type_synonym pydict = "(string \<times> pyval) list"

definition dict_get :: "pydict \<Rightarrow> string \<Rightarrow> pyval \<Rightarrow> pyval" where
  "dict_get d k dflt = (case map_of d k of None \<Rightarrow> dflt | Some v \<Rightarrow> v)"

definition dict_has :: "pydict \<Rightarrow> string \<Rightarrow> bool" where
  "dict_has d k = (map_of d k \<noteq> None)"

fun dict_set :: "pydict \<Rightarrow> string \<Rightarrow> pyval \<Rightarrow> pydict" where
  "dict_set [] k v = [(k, v)]"
| "dict_set ((k', v') # d) k v = (if k' = k then (k, v) # d else (k', v') # dict_set d k v)"

section \<open>The schema (\<^verbatim>\<open>id_keys\<close>)\<close>

text \<open>
  A schema maps a field name to \<^verbatim>\<open>None\<close> or to a dictionary of options. Of an option the code
  asks whether the key is present (\<^verbatim>\<open>'required' in val\<close>), whether its value is truthy
  (\<^verbatim>\<open>val.get('required')\<close>), whether it is \<^verbatim>\<open>True\<close> (\<^verbatim>\<open>transitive\<close>) or not \<^verbatim>\<open>None\<close>
  (\<^verbatim>\<open>default\<close>); an absent key is \<open>None\<close> here. A \<^verbatim>\<open>type\<close> is one of the converting
  classes of the module: \<^verbatim>\<open>WavelengthRange\<close>, \<^verbatim>\<open>ModifierTuple\<close>, or a \<^verbatim>\<open>ValueList\<close> class
  that \<^verbatim>\<open>fix_id_keys\<close> makes from an \<^verbatim>\<open>enum\<close> (its name and its member names; the members
  have the values 1, 2, ...).
\<close>

datatype ftype = TWavelength | TModifier | TEnum string "string list"

record entry =
  e_required :: "bool option"
  e_default :: "pyval option"
  e_transitive :: "bool option"
  e_type :: "ftype option"
  e_enum :: "string list option"

type_synonym schema = "(string \<times> entry option) list"

text \<open>\<^verbatim>\<open>not val\<close>: \<^verbatim>\<open>None\<close> or the empty dictionary.\<close>

definition entry_falsy :: "entry option \<Rightarrow> bool" where
  "entry_falsy val =
     (case val of
        None \<Rightarrow> True
      | Some e \<Rightarrow> e_required e = None \<and> e_default e = None \<and> e_transitive e = None
                  \<and> e_type e = None \<and> e_enum e = None)"

text \<open>\<^verbatim>\<open>ValueList(key, ' '.join(names))\<close>: the functional API of \<^verbatim>\<open>Enum\<close> replaces commas by
  spaces and splits the string at white space; a name used twice is a \<^verbatim>\<open>TypeError\<close>. (Names
  that \<^verbatim>\<open>Enum\<close> reserves, such as \<^verbatim>\<open>mro\<close> or names in underscores, are not modelled.)\<close>

definition is_sep :: "char \<Rightarrow> bool" where
  "is_sep c = (c \<in> set [CHR '' '', CHR '','', CHR 0x09, CHR 0x0A, CHR 0x0B, CHR 0x0C, CHR 0x0D])"

fun split_names :: "string \<Rightarrow> string \<Rightarrow> string list" where
  "split_names cur [] = (if cur = [] then [] else [cur])"
| "split_names cur (c # cs) =
     (if is_sep c then (if cur = [] then split_names [] cs else cur # split_names [] cs)
      else split_names (cur @ [c]) cs)"

fun join_names :: "string list \<Rightarrow> string" where
  "join_names [] = []"
| "join_names [n] = n"
| "join_names (n # ns) = n @ '' '' @ join_names ns"

definition value_list_class :: "string \<Rightarrow> string list \<Rightarrow> error + ftype" where
  "value_list_class key names =
     (let members = split_names [] (join_names names) in
      if distinct members then Inr (TEnum key members)
      else Inl (TypeError ''Attempted to reuse key''))"

text \<open>\<^verbatim>\<open>fix_id_keys\<close>, entry by entry in the order of the dictionary.\<close>

definition fix_entry :: "string \<Rightarrow> entry option \<Rightarrow> error + entry option" where
  "fix_entry key val =
     (if entry_falsy val then Inr val
      else
        (case val of
           None \<Rightarrow> Inr None
         | Some e \<Rightarrow>
             (case e_enum e of
                None \<Rightarrow> Inr (Some e)
              | Some names \<Rightarrow>
                  (if e_type e \<noteq> None then
                     Inl (ValueError ''Cannot have both type and enum for the same id key.'')
                   else
                     (case value_list_class key names of
                        Inl err \<Rightarrow> Inl err
                      | Inr cls \<Rightarrow> Inr (Some (e\<lparr>e_type := Some cls, e_enum := None\<rparr>)))))))"

fun fix_id_keys :: "schema \<Rightarrow> error + schema" where
  "fix_id_keys [] = Inr []"
| "fix_id_keys ((key, val) # rest) =
     (case fix_entry key val of
        Inl err \<Rightarrow> Inl err
      | Inr val' \<Rightarrow>
          (case fix_id_keys rest of
             Inl err \<Rightarrow> Inl err
           | Inr rest' \<Rightarrow> Inr ((key, val') # rest')))"

section \<open>The converters\<close>

text \<open>The default unit, the two UTF-8 bytes of the micro sign and \<^verbatim>\<open>m\<close>.\<close>

definition default_unit :: string where
  "default_unit = [CHR 0xC2, CHR 0xB5, CHR ''m'']"

text \<open>\<^verbatim>\<open>isinstance(v, (tuple, list))\<close> and the items.\<close>

definition sequence_items :: "pyval \<Rightarrow> pyval list option" where
  "sequence_items v = (case v of PList xs \<Rightarrow> Some xs | _ \<Rightarrow> tuple_items v)"

text \<open>\<^verbatim>\<open>WavelengthRange.convert\<close>: \<^verbatim>\<open>cls(*wl)\<close> takes three or four arguments.\<close>

definition wavelength_convert :: "pyval \<Rightarrow> error + pyval" where
  "wavelength_convert wl =
     (case sequence_items wl of
        None \<Rightarrow> Inr wl
      | Some xs \<Rightarrow>
          (case xs of
             [a, b, c] \<Rightarrow> Inr (PWl a b c (PStr default_unit))
           | [a, b, c, d] \<Rightarrow> Inr (PWl a b c d)
           | _ \<Rightarrow> Inl (TypeError ''__new__() wrong number of arguments'')))"

text \<open>\<^verbatim>\<open>ModifierTuple.convert\<close>.\<close>

definition modifier_convert :: "pyval \<Rightarrow> error + pyval" where
  "modifier_convert modifiers =
     (if modifiers = PNone then Inr PNone
      else
        (case sequence_items modifiers of
           None \<Rightarrow> Inl (TypeError ''DataID modifiers must be a tuple or None'')
         | Some xs \<Rightarrow> Inr (PMod xs)))"

text \<open>\<^verbatim>\<open>ValueList.convert\<close> is \<^verbatim>\<open>cls[value]\<close>, a lookup of \<^verbatim>\<open>value\<close> in the dictionary of the
  member names: an unhashable value raises \<^verbatim>\<open>TypeError\<close>; the keys that hash and compare
  equal to a name are the name itself and any \<^verbatim>\<open>ValueList\<close> member of that name; a
  \<^verbatim>\<open>KeyError\<close> is turned into \<^verbatim>\<open>ValueError\<close>.\<close>

fun hashable :: "pyval \<Rightarrow> bool" where
  "hashable (PList xs) = False"
| "hashable (PTuple xs) = list_all hashable xs"
| "hashable (PMod xs) = list_all hashable xs"
| "hashable (PWl a b c d) = (hashable a \<and> hashable b \<and> hashable c \<and> hashable d)"
| "hashable _ = True"

fun index_of :: "string \<Rightarrow> string list \<Rightarrow> nat option" where
  "index_of n [] = None"
| "index_of n (m # ms) = (if n = m then Some 0 else map_option Suc (index_of n ms))"

definition member_lookup :: "string list \<Rightarrow> string \<Rightarrow> error + pyval" where
  "member_lookup members n =
     (case index_of n members of
        None \<Rightarrow> Inl (ValueError ''invalid value for ValueList'')
      | Some i \<Rightarrow> Inr (PEnum n (Suc i)))"

definition value_list_convert :: "string list \<Rightarrow> pyval \<Rightarrow> error + pyval" where
  "value_list_convert members v =
     (if \<not> hashable v then Inl (TypeError ''unhashable type'')
      else
        (case v of
           PStr n \<Rightarrow> member_lookup members n
         | PEnum n i \<Rightarrow> member_lookup members n
         | _ \<Rightarrow> Inl (ValueError ''invalid value for ValueList'')))"

fun type_convert :: "ftype \<Rightarrow> pyval \<Rightarrow> error + pyval" where
  "type_convert TWavelength v = wavelength_convert v"
| "type_convert TModifier v = modifier_convert v"
| "type_convert (TEnum key members) v = value_list_convert members v"

section \<open>DataID\<close>

text \<open>\<^verbatim>\<open>val.get('default')\<close> and \<^verbatim>\<open>val.get('required')\<close> as a condition.\<close>

definition get_default :: "entry \<Rightarrow> pyval" where
  "get_default e = (case e_default e of None \<Rightarrow> PNone | Some v \<Rightarrow> v)"

definition required_truthy :: "entry \<Rightarrow> bool" where
  "required_truthy e = (e_required e = Some True)"

definition missing_required :: "string \<Rightarrow> error" where
  "missing_required key = ValueError (''Required field '' @ key @ '' missing.'')"

text \<open>\<^verbatim>\<open>DataID.convert_dict\<close>: the loop over the fixed schema, then the guard on an empty
  \<^verbatim>\<open>keyvals\<close>.\<close>

fun convert_loop :: "schema \<Rightarrow> pydict \<Rightarrow> pydict \<Rightarrow> error + pydict" where
  "convert_loop [] keyvals curated = Inr curated"
| "convert_loop ((key, val) # rest) keyvals curated =
     (case val of
        Some e \<Rightarrow>
          (if dict_has keyvals key \<or> get_default e \<noteq> PNone \<or> required_truthy e then
             (let curated_val = dict_get keyvals key (get_default e) in
              if e_required e \<noteq> None \<and> curated_val = PNone then Inl (missing_required key)
              else
                (case e_type e of
                   Some t \<Rightarrow>
                     (case type_convert t curated_val of
                        Inl err \<Rightarrow> Inl err
                      | Inr v \<Rightarrow> convert_loop rest keyvals (dict_set curated key v))
                 | None \<Rightarrow>
                     (if curated_val \<noteq> PNone
                      then convert_loop rest keyvals (dict_set curated key curated_val)
                      else convert_loop rest keyvals curated)))
           else convert_loop rest keyvals curated)
      | None \<Rightarrow>
          (case map_of keyvals key of
             None \<Rightarrow> convert_loop rest keyvals curated
           | Some curated_val \<Rightarrow>
               (if curated_val \<noteq> PNone
                then convert_loop rest keyvals (dict_set curated key curated_val)
                else convert_loop rest keyvals curated)))"

definition convert_dict :: "schema \<Rightarrow> pydict \<Rightarrow> error + pydict" where
  "convert_dict id_keys keyvals =
     (if keyvals = [] then Inr [] else convert_loop id_keys keyvals [])"

text \<open>A \<^verbatim>\<open>DataID\<close>: the dictionary it is, and its attributes \<^verbatim>\<open>_hash\<close>, \<^verbatim>\<open>_orig_id_keys\<close>
  and \<^verbatim>\<open>_id_keys\<close>. \<^verbatim>\<open>DataID.__init__\<close> takes the schema (or \<^verbatim>\<open>None\<close>) and the keyword
  arguments.\<close>

record DataID =
  hash_cache :: "int option"
  orig_id_keys :: "schema option"
  id_keys :: schema
  items :: pydict

definition dataid_init :: "schema option \<Rightarrow> pydict \<Rightarrow> error + DataID" where
  "dataid_init idk keyval_dict =
     (case fix_id_keys (case idk of None \<Rightarrow> [] | Some s \<Rightarrow> s) of
        Inl err \<Rightarrow> Inl err
      | Inr fixed \<Rightarrow>
          (case (if keyval_dict \<noteq> [] then convert_dict fixed keyval_dict else Inr []) of
             Inl err \<Rightarrow> Inl err
           | Inr curated \<Rightarrow>
               Inr \<lparr>hash_cache = None, orig_id_keys = idk, id_keys = fixed, items = curated\<rparr>))"

text \<open>\<^verbatim>\<open>to_dict\<close>, \<^verbatim>\<open>_unpickle\<close> and \<^verbatim>\<open>__reduce__\<close>.\<close>

definition render_value :: "pyval \<Rightarrow> pyval" where
  "render_value v = (case v of PEnum n i \<Rightarrow> PStr n | _ \<Rightarrow> v)"

definition to_dict :: "DataID \<Rightarrow> pydict" where
  "to_dict d = map (\<lambda>(key, v). (key, render_value v)) (items d)"

definition unpickle :: "schema option \<Rightarrow> pydict \<Rightarrow> error + DataID" where
  "unpickle idk keyval = dataid_init idk keyval"

definition reduce :: "DataID \<Rightarrow> schema option \<times> pydict" where
  "reduce d = (orig_id_keys d, to_dict d)"


text \<open>
  \<^verbatim>\<open>hash\<close>. Python fixes the hash of a string per process only, so the hash functions of the
  builtin types are parameters: of \<^verbatim>\<open>None\<close>, of a number (equal numbers hash equal whatever
  their type), of a string, and of a tuple from the hashes of its items. \<^verbatim>\<open>ValueList\<close>
  hashes its name; \<^verbatim>\<open>WavelengthRange\<close> and \<^verbatim>\<open>ModifierTuple\<close> hash as tuples; a list is
  unhashable.
\<close>

record hasher =
  h_none :: int
  h_num :: "real \<Rightarrow> int"
  h_str :: "string \<Rightarrow> int"
  h_tuple :: "int list \<Rightarrow> int"

definition unhashable :: "error" where
  "unhashable = TypeError ''unhashable type: list''"

function py_hash :: "hasher \<Rightarrow> pyval \<Rightarrow> error + int"
  and py_hash_items :: "hasher \<Rightarrow> pyval list \<Rightarrow> error + int list" where
  "py_hash H PNone = Inr (h_none H)"
| "py_hash H (PInt i) = Inr (h_num H (real_of_int i))"
| "py_hash H (PFloat r) = Inr (h_num H r)"
| "py_hash H (PStr s) = Inr (h_str H s)"
| "py_hash H (PEnum n v) = Inr (h_str H n)"
| "py_hash H (PTuple xs) =
     (case py_hash_items H xs of Inl e \<Rightarrow> Inl e | Inr hs \<Rightarrow> Inr (h_tuple H hs))"
| "py_hash H (PMod xs) =
     (case py_hash_items H xs of Inl e \<Rightarrow> Inl e | Inr hs \<Rightarrow> Inr (h_tuple H hs))"
| "py_hash H (PWl a b c d) =
     (case py_hash_items H [a, b, c, d] of Inl e \<Rightarrow> Inl e | Inr hs \<Rightarrow> Inr (h_tuple H hs))"
| "py_hash H (PList xs) = Inl unhashable"
| "py_hash_items H [] = Inr []"
| "py_hash_items H (x # xs) =
     (case py_hash H x of
        Inl e \<Rightarrow> Inl e
      | Inr h \<Rightarrow> (case py_hash_items H xs of Inl e \<Rightarrow> Inl e | Inr hs \<Rightarrow> Inr (h # hs)))"
  by pat_completeness auto
termination
  by (relation "measure (\<lambda>a. case a of
          Inl (H, x) \<Rightarrow> 2 * wt x
        | Inr (H, xs) \<Rightarrow> Suc (2 * sum_list (map wt xs)))")
     auto


text \<open>\<^verbatim>\<open>DataID.__hash__\<close>: \<^verbatim>\<open>hash(tuple(sorted(self.items())))\<close>, cached in \<^verbatim>\<open>_hash\<close>. The keys
  of a dictionary differ, so sorting the items compares keys only.\<close>

definition compute_hash :: "hasher \<Rightarrow> pydict \<Rightarrow> error + int" where
  "compute_hash H d =
     py_hash H (PTuple (map (\<lambda>(k, v). PTuple [PStr k, v]) (sort_key fst d)))"

definition dataid_hash :: "hasher \<Rightarrow> DataID \<Rightarrow> (error + int) \<times> DataID" where
  "dataid_hash H d =
     (case hash_cache d of
        Some h \<Rightarrow> (Inr h, d)
      | None \<Rightarrow>
          (case compute_hash H (items d) of
             Inl e \<Rightarrow> (Inl e, d)
           | Inr h \<Rightarrow> (Inr h, d\<lparr>hash_cache := Some h\<rparr>)))"

text \<open>The mutating methods of \<^verbatim>\<open>dict\<close> that the class rebinds to \<^verbatim>\<open>_immutable\<close>:
  \<^verbatim>\<open>__setitem__\<close>, \<^verbatim>\<open>__delitem__\<close>, \<^verbatim>\<open>pop\<close>, \<^verbatim>\<open>popitem\<close>, \<^verbatim>\<open>clear\<close>, \<^verbatim>\<open>update\<close>, \<^verbatim>\<open>setdefault\<close>.
  A call returns its result and the object after the call.\<close>

datatype mutation =
    SetItem string pyval
  | DelItem string
  | Pop string "pyval option"
  | PopItem
  | Clear
  | Update pydict
  | SetDefault string pyval

definition immutable :: "DataID \<Rightarrow> (error + pyval) \<times> DataID" where
  "immutable self = (Inl (TypeError ''Cannot change a DataID''), self)"

fun mutate :: "mutation \<Rightarrow> DataID \<Rightarrow> (error + pyval) \<times> DataID" where
  "mutate (SetItem k v) d = immutable d"
| "mutate (DelItem k) d = immutable d"
| "mutate (Pop k dflt) d = immutable d"
| "mutate PopItem d = immutable d"
| "mutate Clear d = immutable d"
| "mutate (Update other) d = immutable d"
| "mutate (SetDefault k v) d = immutable d"

text \<open>\<^verbatim>\<open>DataID.__lt__\<close>: the zero of a value's type, the two lists, the tuple comparison.\<close>

definition generalize :: "pyval \<Rightarrow> error + pyval" where
  "generalize v =
     (if is_number v then Inr (PInt 0)
      else if (case v of PStr _ \<Rightarrow> True | _ \<Rightarrow> False) then Inr (PStr [])
      else if is_tuple v then Inr (PTuple [])
      else Inl (NotImplementedError ''Don't know how to generalize''))"

fun lt_lists :: "string list \<Rightarrow> pydict \<Rightarrow> pydict \<Rightarrow> pyval list \<Rightarrow> pyval list
     \<Rightarrow> error + (pyval list \<times> pyval list)" where
  "lt_lists [] self other list_self list_other = Inr (list_self, list_other)"
| "lt_lists (key # ks) self other list_self list_other =
     (case (map_of self key, map_of other key) of
        (None, None) \<Rightarrow> lt_lists ks self other list_self list_other
      | (Some a, Some b) \<Rightarrow> lt_lists ks self other (list_self @ [a]) (list_other @ [b])
      | (Some a, None) \<Rightarrow>
          (case generalize a of
             Inl e \<Rightarrow> Inl e
           | Inr z \<Rightarrow> lt_lists ks self other (list_self @ [a]) (list_other @ [z]))
      | (None, Some b) \<Rightarrow>
          (case generalize b of
             Inl e \<Rightarrow> Inl e
           | Inr z \<Rightarrow> lt_lists ks self other (list_self @ [z]) (list_other @ [b])))"

definition dataid_lt :: "DataID \<Rightarrow> DataID \<Rightarrow> error + bool" where
  "dataid_lt self other =
     (case lt_lists (map fst (id_keys self)) (items self) (items other) [] [] of
        Inl e \<Rightarrow> Inl e
      | Inr (list_self, list_other) \<Rightarrow> py_cmp LT (PTuple list_self) (PTuple list_other))"

text \<open>\<^verbatim>\<open>==\<close> on two \<^verbatim>\<open>DataID\<close>s is \<^verbatim>\<open>dict.__eq__\<close>: the same number of items, and every key of
  the left one is in the right one with an \<^verbatim>\<open>==\<close> value.\<close>

fun dict_eq_loop :: "pydict \<Rightarrow> pydict \<Rightarrow> error + bool" where
  "dict_eq_loop [] b = Inr True"
| "dict_eq_loop ((k, av) # rest) b =
     (case map_of b k of
        None \<Rightarrow> Inr False
      | Some bv \<Rightarrow>
          (case py_cmp EQ av bv of
             Inl e \<Rightarrow> Inl e
           | Inr t \<Rightarrow> (if t then dict_eq_loop rest b else Inr False)))"

definition dict_eq :: "pydict \<Rightarrow> pydict \<Rightarrow> error + bool" where
  "dict_eq a b = (if length a \<noteq> length b then Inr False else dict_eq_loop a b)"

definition dataid_eq :: "DataID \<Rightarrow> DataID \<Rightarrow> error + bool" where
  "dataid_eq a b = dict_eq (items a) (items b)"

section \<open>DataQuery\<close>

text \<open>A \<^verbatim>\<open>DataQuery\<close> is its \<^verbatim>\<open>_dict\<close> (\<^verbatim>\<open>_fields\<close> and \<^verbatim>\<open>_values\<close> are its keys and values). The
  right operand of \<^verbatim>\<open>DataQuery.__eq__\<close> is a query, a \<^verbatim>\<open>DataID\<close>, or an object without
  \<^verbatim>\<open>_asdict\<close>.\<close>

datatype other = OtherQuery pydict | OtherId DataID | OtherObject

fun other_asdict :: "other \<Rightarrow> pydict option" where
  "other_asdict (OtherQuery q) = Some q"
| "other_asdict (OtherId d) = Some (items d)"
| "other_asdict OtherObject = None"

fun query_eq_loop :: "pydict \<Rightarrow> pydict \<Rightarrow> bool \<Rightarrow> error + bool" where
  "query_eq_loop [] odict common_keys = Inr common_keys"
| "query_eq_loop ((key, val) # rest) odict common_keys =
     (case map_of odict key of
        None \<Rightarrow> query_eq_loop rest odict common_keys
      | Some oval \<Rightarrow>
          (case py_ne oval val of
             Inl e \<Rightarrow> Inl e
           | Inr t \<Rightarrow>
               (if t \<and> val \<noteq> PNone then Inr False
                else query_eq_loop rest odict True)))"

definition dataquery_eq :: "pydict \<Rightarrow> other \<Rightarrow> error + bool" where
  "dataquery_eq self other =
     (case other_asdict other of
        None \<Rightarrow> Inr False
      | Some odict \<Rightarrow> query_eq_loop self odict False)"

text \<open>\<^verbatim>\<open>DataQuery.sort_dataids\<close>. Sums and comparisons of distances, \<^verbatim>\<open>np.inf\<close> included.\<close>

definition big_distance :: real where
  "big_distance = 100000"

fun dist_add :: "dist \<Rightarrow> dist \<Rightarrow> dist" where
  "dist_add (Fin a) (Fin b) = Fin (a + b)"
| "dist_add _ _ = Infty"

fun dist_less :: "dist \<Rightarrow> dist \<Rightarrow> bool" where
  "dist_less (Fin a) (Fin b) = (a < b)"
| "dist_less (Fin a) Infty = True"
| "dist_less Infty _ = False"

text \<open>\<^verbatim>\<open>val == '*'\<close>.\<close>

definition is_wildcard :: "pyval \<Rightarrow> bool" where
  "is_wildcard val = (py_cmp EQ val (PStr ''*'') = Inr True)"

text \<open>What the wildcard branch adds for \<^verbatim>\<open>dataid.get(key)\<close>: the \<^verbatim>\<open>value\<close> of an enumeration
  member, a number itself, the length of a tuple, and nothing otherwise.\<close>

definition unconstrained_contribution :: "pyval \<Rightarrow> real" where
  "unconstrained_contribution v =
     (case v of
        PEnum n i \<Rightarrow> real i
      | _ \<Rightarrow>
          (case num_of v of
             Some x \<Rightarrow> x
           | None \<Rightarrow>
               (case tuple_items v of
                  Some xs \<Rightarrow> real (length xs)
                | None \<Rightarrow> 0)))"

text \<open>\<^verbatim>\<open>needle in items\<close> for a list: the items, in turn, on the left of \<^verbatim>\<open>==\<close> (CPython 3.9
  and later).\<close>

fun list_contains :: "pyval list \<Rightarrow> pyval \<Rightarrow> error + bool" where
  "list_contains [] needle = Inr False"
| "list_contains (item # rest) needle =
     (case py_cmp EQ item needle of
        Inl e \<Rightarrow> Inl e
      | Inr t \<Rightarrow> (if t then Inr True else list_contains rest needle))"

text \<open>One round of the inner loop for a key: the new distance, and whether the loop goes on
  or \<^verbatim>\<open>break\<close>s. Only a \<^verbatim>\<open>WavelengthRange\<close> has a \<^verbatim>\<open>distance\<close> method.\<close>

datatype step = Continue dist | Break dist

text \<open>\<^verbatim>\<open>if not isinstance(val, list): val = [val]\<close>.\<close>

definition allowed_values :: "pyval \<Rightarrow> pyval list" where
  "allowed_values val = (case val of PList xs \<Rightarrow> xs | _ \<Rightarrow> [val])"

definition key_step :: "pydict \<Rightarrow> DataID \<Rightarrow> string \<Rightarrow> dist \<Rightarrow> error + step" where
  "key_step q dataid key distance =
     (let val = dict_get q key (PStr ''*'') in
      if is_wildcard val then
        Inr (Continue (dist_add distance
               (Fin (unconstrained_contribution (dict_get (items dataid) key PNone)))))
      else
        (case map_of (items dataid) key of
           None \<Rightarrow> Inr (Break (dist_add distance (Fin big_distance)))
         | Some dataid_val \<Rightarrow>
             (case dataid_val of
                PWl mn c mx u \<Rightarrow>
                  (case wl_distance mn c mx u val of
                     Inl e \<Rightarrow> Inl e
                   | Inr d \<Rightarrow> Inr (Continue (dist_add distance d)))
              | _ \<Rightarrow>
                  (case list_contains (allowed_values val) dataid_val of
                     Inl e \<Rightarrow> Inl e
                   | Inr found \<Rightarrow>
                       (if \<not> found then Inr (Break Infty)
                        else
                          (case num_of dataid_val of
                             Some x \<Rightarrow> Inr (Continue (dist_add distance (Fin x)))
                           | None \<Rightarrow> Inr (Continue distance)))))))"

fun distance_loop :: "pydict \<Rightarrow> DataID \<Rightarrow> string list \<Rightarrow> dist \<Rightarrow> error + dist" where
  "distance_loop q dataid [] distance = Inr distance"
| "distance_loop q dataid (key # ks) distance =
     (case key_step q dataid key distance of
        Inl e \<Rightarrow> Inl e
      | Inr (Break d) \<Rightarrow> Inr d
      | Inr (Continue d) \<Rightarrow> distance_loop q dataid ks d)"

text \<open>
  \<^verbatim>\<open>sorted\<close>. Python's sort is stable and calls only \<^verbatim>\<open><\<close>; the model inserts each element in
  turn behind the elements it is not less than. On a comparison that is a strict weak order
  every stable sort returns this list; on any other comparison the language leaves the
  order open, and which pairs are compared (hence which raise wins) is CPython's choice.
\<close>

fun insert_by :: "('a \<Rightarrow> 'a \<Rightarrow> error + bool) \<Rightarrow> 'a \<Rightarrow> 'a list \<Rightarrow> error + 'a list" where
  "insert_by lt x [] = Inr [x]"
| "insert_by lt x (y # ys) =
     (case lt x y of
        Inl e \<Rightarrow> Inl e
      | Inr t \<Rightarrow>
          (if t then Inr (x # y # ys)
           else (case insert_by lt x ys of Inl e \<Rightarrow> Inl e | Inr zs \<Rightarrow> Inr (y # zs))))"

fun sorted_onto :: "('a \<Rightarrow> 'a \<Rightarrow> error + bool) \<Rightarrow> 'a list \<Rightarrow> 'a list \<Rightarrow> error + 'a list" where
  "sorted_onto lt [] acc = Inr acc"
| "sorted_onto lt (x # xs) acc =
     (case insert_by lt x acc of
        Inl e \<Rightarrow> Inl e
      | Inr acc' \<Rightarrow> sorted_onto lt xs acc')"

definition py_sorted :: "('a \<Rightarrow> 'a \<Rightarrow> error + bool) \<Rightarrow> 'a list \<Rightarrow> error + 'a list" where
  "py_sorted lt xs = sorted_onto lt xs []"

text \<open>\<^verbatim>\<open><\<close> on the pairs \<^verbatim>\<open>(distance, dataid)\<close>: the distances if they differ, else the
  \<^verbatim>\<open>DataID\<close>s unless they are \<^verbatim>\<open>==\<close>.\<close>

definition pair_lt :: "dist \<times> DataID \<Rightarrow> dist \<times> DataID \<Rightarrow> error + bool" where
  "pair_lt p q =
     (if fst p \<noteq> fst q then Inr (dist_less (fst p) (fst q))
      else
        (case dataid_eq (snd p) (snd q) of
           Inl e \<Rightarrow> Inl e
         | Inr t \<Rightarrow> (if t then Inr False else dataid_lt (snd p) (snd q))))"

text \<open>The set \<^verbatim>\<open>keys\<close>, and the method. \<open>key_order\<close> is the order in which Python iterates
  \<^verbatim>\<open>keys\<close> (the same for every candidate). Unpacking \<^verbatim>\<open>zip(*[])\<close> raises.\<close>

definition union_keys :: "pydict \<Rightarrow> DataID list \<Rightarrow> string set" where
  "union_keys q dataids = set (map fst q) \<union> (\<Union>d \<in> set dataids. set (map fst (items d)))"

definition sort_dataids :: "string list \<Rightarrow> pydict \<Rightarrow> DataID list
     \<Rightarrow> error + (DataID list \<times> dist list)" where
  "sort_dataids key_order q dataids =
     (case py_sorted dataid_lt dataids of
        Inl e \<Rightarrow> Inl e
      | Inr sorted_dataids \<Rightarrow>
          (case sequence (map (\<lambda>d. distance_loop q d key_order (Fin 0)) sorted_dataids) of
             Inl e \<Rightarrow> Inl e
           | Inr distances \<Rightarrow>
               (case py_sorted pair_lt (zip distances sorted_dataids) of
                  Inl e \<Rightarrow> Inl e
                | Inr pairs \<Rightarrow>
                    (if pairs = []
                     then Inl (ValueError ''not enough values to unpack (expected 2, got 0)'')
                     else Inr (map snd pairs, map fst pairs)))))"

section \<open>The specification's words\<close>

text \<open>Definitions that follow the wording of the specification, to compare the code with.\<close>

text \<open>Query equality as the specification words it: the two share a field, and on every shared
  field the values are compatible, where \<^verbatim>\<open>None\<close> in the query skips the check and the
  wildcard matches anything.\<close>

definition spec_compatible :: "pyval \<Rightarrow> pyval \<Rightarrow> bool" where
  "spec_compatible qv ov = (qv = PNone \<or> is_wildcard qv \<or> py_ne ov qv = Inr False)"

definition spec_query_eq :: "pydict \<Rightarrow> pydict \<Rightarrow> bool" where
  "spec_query_eq q odict =
     ((\<exists>k \<in> set (map fst q). dict_has odict k) \<and>
      (\<forall>(k, qv) \<in> set q. \<forall>ov. map_of odict k = Some ov \<longrightarrow> spec_compatible qv ov))"

text \<open>What \<^verbatim>\<open>DataQuery.__eq__\<close> tests on a shared field: \<^verbatim>\<open>odict[key] != val and val is not None\<close>
  must be false.\<close>

definition code_compatible :: "pyval \<Rightarrow> pyval \<Rightarrow> bool" where
  "code_compatible qv ov = (qv = PNone \<or> py_ne ov qv = Inr False)"

text \<open>The contribution of an unconstrained field as the specification words it: the ordinal
  of a closed-enumeration value, a number itself, the length of a tuple, 0 otherwise.\<close>

fun spec_contribution :: "pyval \<Rightarrow> real" where
  "spec_contribution (PEnum n i) = real i"
| "spec_contribution (PInt i) = real_of_int i"
| "spec_contribution (PFloat r) = r"
| "spec_contribution (PTuple xs) = real (length xs)"
| "spec_contribution (PMod xs) = real (length xs)"
| "spec_contribution (PWl a b c d) = 4"
| "spec_contribution _ = 0"

text \<open>Identifier construction as the specification words it: construction fails when a
  field marked required resolves to no value, that is the raw mapping does not supply it and
  it has no non-null default; a field is included iff the raw input supplies it, or it has a
  non-null default, or it is required.\<close>

definition spec_missing_required :: "schema \<Rightarrow> pydict \<Rightarrow> bool" where
  "spec_missing_required S raw =
     (\<exists>k e. (k, Some e) \<in> set S \<and> required_truthy e \<and> \<not> dict_has raw k \<and> get_default e = PNone)"

definition spec_included :: "schema \<Rightarrow> pydict \<Rightarrow> string \<Rightarrow> bool" where
  "spec_included S raw k =
     (\<exists>val. (k, val) \<in> set S \<and>
        (dict_has raw k \<or>
         (case val of None \<Rightarrow> False | Some e \<Rightarrow> get_default e \<noteq> PNone \<or> required_truthy e)))"

text \<open>The code's own tests on a field of the fixed schema.\<close>

definition raises_missing :: "pydict \<Rightarrow> string \<Rightarrow> entry option \<Rightarrow> bool" where
  "raises_missing raw k val =
     (case val of
        None \<Rightarrow> False
      | Some e \<Rightarrow>
          (dict_has raw k \<or> get_default e \<noteq> PNone \<or> required_truthy e) \<and>
          e_required e \<noteq> None \<and> dict_get raw k (get_default e) = PNone)"

definition code_included :: "pydict \<Rightarrow> string \<Rightarrow> entry option \<Rightarrow> bool" where
  "code_included raw k val =
     (case val of
        None \<Rightarrow> (\<exists>v. map_of raw k = Some v \<and> v \<noteq> PNone)
      | Some e \<Rightarrow>
          (dict_has raw k \<or> get_default e \<noteq> PNone \<or> required_truthy e) \<and>
          (e_type e \<noteq> None \<or> dict_get raw k (get_default e) \<noteq> PNone))"

text \<open>The other way a field makes \<^verbatim>\<open>convert_dict\<close> raise: the field is treated (the test of
  the \<^verbatim>\<open>if\<close>), the missing-field test does not raise, the field has a \<^verbatim>\<open>type\<close> and its
  \<^verbatim>\<open>convert\<close> raises on \<^verbatim>\<open>keyvals.get(key, default)\<close>. A field that \<^verbatim>\<open>convert_dict\<close> skips
  converts nothing.\<close>

definition conversion_raises :: "pydict \<Rightarrow> string \<Rightarrow> entry option \<Rightarrow> bool" where
  "conversion_raises raw k val =
     (case val of
        None \<Rightarrow> False
      | Some e \<Rightarrow>
          (dict_has raw k \<or> get_default e \<noteq> PNone \<or> required_truthy e) \<and>
          \<not> (e_required e \<noteq> None \<and> dict_get raw k (get_default e) = PNone) \<and>
          (case e_type e of
             None \<Rightarrow> False
           | Some t \<Rightarrow>
               (case type_convert t (dict_get raw k (get_default e)) of
                  Inl err \<Rightarrow> True
                | Inr v \<Rightarrow> False)))"

definition field_raises :: "pydict \<Rightarrow> string \<times> entry option \<Rightarrow> bool" where
  "field_raises raw p =
     (raises_missing raw (fst p) (snd p) \<or> conversion_raises raw (fst p) (snd p))"

text \<open>The first field, in the order of the schema, at which \<^verbatim>\<open>convert_dict\<close> raises.\<close>

definition first_raising :: "schema \<Rightarrow> pydict \<Rightarrow> (string \<times> entry option) option" where
  "first_raising F raw = find (field_raises raw) F"

definition no_conversion_raises :: "schema \<Rightarrow> pydict \<Rightarrow> bool" where
  "no_conversion_raises F raw = list_all (\<lambda>p. \<not> conversion_raises raw (fst p) (snd p)) F"

text \<open>Every \<^verbatim>\<open>required\<close> option of the schema is true: then \<^verbatim>\<open>'required' in val\<close> and
  \<^verbatim>\<open>val.get('required')\<close>, the two tests of \<^verbatim>\<open>convert_dict\<close>, agree.\<close>

definition required_flags_true :: "schema \<Rightarrow> bool" where
  "required_flags_true S =
     list_all (\<lambda>p. case snd p of None \<Rightarrow> True | Some e \<Rightarrow> e_required e \<noteq> Some False) S"

text \<open>Ranking as the specification words it. The query constrains a field when its value for
  the field is not the wildcard. A candidate is infeasible when it lacks a field the query
  constrains, or when its value for such a field (a value without a \<^verbatim>\<open>distance\<close> method) is
  not among the values the query allows. A \<^verbatim>\<open>WavelengthRange\<close> that is not \<^verbatim>\<open>==\<close> to the
  query's value is a mismatch of its own: it adds \<^verbatim>\<open>+inf\<close> through \<^verbatim>\<open>distance\<close>.\<close>

definition constrained :: "pydict \<Rightarrow> string \<Rightarrow> bool" where
  "constrained q key = (\<not> is_wildcard (dict_get q key (PStr ''*'')))"

definition lacks_field :: "pydict \<Rightarrow> DataID \<Rightarrow> string \<Rightarrow> bool" where
  "lacks_field q d key = (constrained q key \<and> map_of (items d) key = None)"

definition fails_check :: "pydict \<Rightarrow> DataID \<Rightarrow> string \<Rightarrow> bool" where
  "fails_check q d key =
     (constrained q key \<and>
      (case map_of (items d) key of
         None \<Rightarrow> False
       | Some v \<Rightarrow>
           (case v of
              PWl mn c mx u \<Rightarrow> False
            | _ \<Rightarrow> list_contains (allowed_values (dict_get q key (PStr ''*''))) v = Inr False)))"

definition spec_infeasible :: "pydict \<Rightarrow> DataID \<Rightarrow> string list \<Rightarrow> bool" where
  "spec_infeasible q d ks = (\<exists>key \<in> set ks. lacks_field q d key \<or> fails_check q d key)"

definition wavelength_mismatch :: "pydict \<Rightarrow> DataID \<Rightarrow> string \<Rightarrow> bool" where
  "wavelength_mismatch q d key =
     (constrained q key \<and>
      (case map_of (items d) key of
         Some (PWl mn c mx u) \<Rightarrow> wl_distance mn c mx u (dict_get q key (PStr ''*'')) = Inr Infty
       | _ \<Rightarrow> False))"

text \<open>Every number a candidate holds is non-negative.\<close>

definition nonneg_values :: "DataID \<Rightarrow> bool" where
  "nonneg_values d = (\<forall>(k, v) \<in> set (items d). \<forall>x. num_of v = Some x \<longrightarrow> 0 \<le> x)"

text \<open>The order on distances, and on the pairs that the last \<^verbatim>\<open>sorted\<close> sorts.\<close>

definition dist_le :: "dist \<Rightarrow> dist \<Rightarrow> bool" where
  "dist_le a b = (\<not> dist_less b a)"

definition by_distance :: "dist \<times> 'a \<Rightarrow> dist \<times> 'a \<Rightarrow> bool" where
  "by_distance p q = dist_le (fst p) (fst q)"

section \<open>Concrete inputs for the examples\<close>

text \<open>A hash function.\<close>

definition hasher0 :: hasher where
  "hasher0 = \<lparr>h_none = 0, h_num = (\<lambda>r. \<lfloor>r\<rfloor>), h_str = (\<lambda>s. int (length s)),
              h_tuple = (\<lambda>hs. sum_list hs + 1)\<rparr>"

text \<open>Schemas: the default configuration of the module, before and after \<^verbatim>\<open>fix_id_keys\<close>; a
  schema with a required field and an untyped field with a default; and a schema with an
  optional field \<^verbatim>\<open>level\<close>.\<close>

definition plain_entry :: entry where
  "plain_entry = \<lparr>e_required = None, e_default = None, e_transitive = None,
                   e_type = None, e_enum = None\<rparr>"

definition required_entry :: entry where
  "required_entry = plain_entry\<lparr>e_required := Some True\<rparr>"

definition calibrations :: "string list" where
  "calibrations = [''reflectance'', ''brightness_temperature'', ''radiance'', ''counts'']"

definition schema0 :: schema where
  "schema0 =
     [(''name'', Some required_entry),
      (''wavelength'', Some (plain_entry\<lparr>e_type := Some TWavelength\<rparr>)),
      (''resolution'', Some (plain_entry\<lparr>e_transitive := Some True\<rparr>)),
      (''calibration'', Some (plain_entry\<lparr>e_enum := Some calibrations\<rparr>)),
      (''modifiers'', Some (plain_entry\<lparr>e_default := Some (PMod []),
                                        e_type := Some TModifier\<rparr>))]"

definition schema0_fixed :: schema where
  "schema0_fixed =
     [(''name'', Some required_entry),
      (''wavelength'', Some (plain_entry\<lparr>e_type := Some TWavelength\<rparr>)),
      (''resolution'', Some (plain_entry\<lparr>e_transitive := Some True\<rparr>)),
      (''calibration'', Some (plain_entry\<lparr>e_type := Some (TEnum ''calibration'' calibrations)\<rparr>)),
      (''modifiers'', Some (plain_entry\<lparr>e_default := Some (PMod []),
                                        e_type := Some TModifier\<rparr>))]"

definition schema1 :: schema where
  "schema1 =
     [(''name'', Some required_entry),
      (''level'', Some (plain_entry\<lparr>e_default := Some (PInt 5)\<rparr>))]"

definition schema2 :: schema where
  "schema2 = [(''name'', Some required_entry),
              (''resolution'', Some (plain_entry\<lparr>e_transitive := Some True\<rparr>)),
              (''level'', None)]"

text \<open>A schema with a closed enumeration before the required field, before and after
  \<^verbatim>\<open>fix_id_keys\<close>, and a schema with a field marked \<^verbatim>\<open>required: False\<close>.\<close>

definition schema3 :: schema where
  "schema3 =
     [(''calibration'', Some (plain_entry\<lparr>e_enum := Some calibrations\<rparr>)),
      (''name'', Some required_entry)]"

definition schema3_fixed :: schema where
  "schema3_fixed =
     [(''calibration'', Some (plain_entry\<lparr>e_type := Some (TEnum ''calibration'' calibrations)\<rparr>)),
      (''name'', Some required_entry)]"

definition schema4 :: schema where
  "schema4 =
     [(''name'', Some required_entry),
      (''x'', Some (plain_entry\<lparr>e_required := Some False\<rparr>))]"

text \<open>An identifier of the default configuration, and the raw attributes it is built from.\<close>

definition raw1 :: pydict where
  "raw1 = [(''name'', PStr ''ch1''), (''wavelength'', PTuple [PInt 1, PInt 2, PInt 3]),
           (''resolution'', PInt 500), (''calibration'', PStr ''counts''),
           (''modifiers'', PList [PStr ''a'', PStr ''b''])]"

definition id1 :: DataID where
  "id1 = \<lparr>hash_cache = None, orig_id_keys = Some schema0, id_keys = schema0_fixed,
          items = [(''name'', PStr ''ch1''),
                   (''wavelength'', PWl (PInt 1) (PInt 2) (PInt 3) (PStr default_unit)),
                   (''resolution'', PInt 500), (''calibration'', PEnum ''counts'' 4),
                   (''modifiers'', PMod [PStr ''a'', PStr ''b''])]\<rparr>"

text \<open>Candidates of the third schema, each built by \<^verbatim>\<open>DataID(schema2, **items)\<close>, and a query
  that constrains \<^verbatim>\<open>name\<close> and \<^verbatim>\<open>level\<close>.\<close>

definition make_id :: "pydict \<Rightarrow> DataID" where
  "make_id kv = \<lparr>hash_cache = None, orig_id_keys = Some schema2, id_keys = schema2, items = kv\<rparr>"

definition id_a :: DataID where
  "id_a = make_id [(''name'', PStr ''a''), (''resolution'', PInt 200000), (''level'', PInt 1)]"

definition id_b :: DataID where
  "id_b = make_id [(''name'', PStr ''a''), (''resolution'', PInt 1)]"

definition id_c :: DataID where
  "id_c = make_id [(''name'', PStr ''a''), (''resolution'', PInt (- 5))]"

definition id_d :: DataID where
  "id_d = make_id [(''name'', PStr ''a''), (''resolution'', PInt 500), (''level'', PInt 1)]"

definition id_e :: DataID where
  "id_e = make_id [(''name'', PStr ''a''), (''resolution'', PInt 250), (''level'', PInt 2)]"

definition query_a :: pydict where
  "query_a = [(''name'', PStr ''a''), (''level'', PInt 1)]"

section \<open>Properties of the comparisons\<close>

text \<open>Every value is \<^verbatim>\<open>==\<close> to itself, and the comparison of a value with itself never
  raises.\<close>

lemma py_seq_eq_refl:
  "(\<And>x. x \<in> set xs \<Longrightarrow> py_cmp EQ x x = Inr True) \<Longrightarrow> py_seq_cmp EQ xs xs = Inr True"
  by (induction xs) simp_all

lemma py_eq_refl: "py_cmp EQ x x = Inr True"
  by (induction x) (simp_all add: py_cmp.simps py_seq_eq_refl)

section \<open>Properties of WavelengthRange\<close>

lemma num_order:
  "num_of a = Some x \<Longrightarrow> num_of b = Some y \<Longrightarrow> op \<noteq> EQ
   \<Longrightarrow> py_cmp op a b = Inr (num_cmp op x y)"
  by (cases a; cases b) (auto simp: py_cmp.simps)

lemma bare_cmp:
  "is_bare_number a \<Longrightarrow> is_bare_number b \<Longrightarrow> num_of a = Some x \<Longrightarrow> num_of b = Some y
   \<Longrightarrow> py_cmp op a b = Inr (num_cmp op x y)"
  by (cases a; cases b) (auto simp: py_cmp.simps is_bare_number_def)

text \<open>On a number, \<^verbatim>\<open>__eq__\<close> is \<^verbatim>\<open>__contains__\<close>, as the source writes it.\<close>

lemma wl_eq_contains:
  "is_number n \<Longrightarrow> py_cmp EQ (PWl mn c mx u) n = wl_contains mn c mx u n"
  by (cases n) (auto simp: py_cmp.simps(9) is_number_def wl_contains_def)

lemma wl_eq_number:
  assumes "num_of mn = Some lo" "num_of mx = Some hi" "num_of n = Some x"
  shows "py_cmp EQ (PWl mn c mx u) n = Inr (lo \<le> x \<and> x \<le> hi)"
proof -
  have a: "py_cmp LE mn n = Inr (lo \<le> x)" using assms by (simp add: num_order)
  have b: "py_cmp LE n mx = Inr (x \<le> hi)" using assms by (simp add: num_order)
  show ?thesis using assms(3) a b by (cases n) (auto simp: py_cmp.simps(9))
qed

lemma wl_distance_number:
  assumes "num_of mn = Some lo" "num_of mx = Some hi" "num_of n = Some x" "num_of c = Some ce"
  shows "wl_distance mn c mx u n =
           Inr (if lo \<le> x \<and> x \<le> hi then Fin \<bar>x - ce\<bar> else Infty)"
proof -
  have e: "py_cmp EQ (PWl mn c mx u) n = Inr (lo \<le> x \<and> x \<le> hi)"
    using assms by (simp add: wl_eq_number)
  have d: "py_abs_diff n c = Inr (Fin \<bar>x - ce\<bar>)" using assms by (simp add: py_abs_diff_def)
  show ?thesis unfolding wl_distance_def e using assms(3) d by (cases n) auto
qed

lemma wl_distance_unequal:
  "py_cmp EQ (PWl mn c mx u) v = Inr False \<Longrightarrow> wl_distance mn c mx u v = Inr Infty"
  by (simp add: wl_distance_def)

lemma wl_distance_range:
  assumes "py_cmp EQ (PWl mn c mx u) (PWl mn' c' mx' u') = Inr True"
    and "num_of c = Some ce" "num_of c' = Some ce'"
  shows "wl_distance mn c mx u (PWl mn' c' mx' u') = Inr (Fin \<bar>ce' - ce\<bar>)"
  using assms by (simp add: wl_distance_def py_abs_diff_def)

lemma wl_distance_triple:
  assumes "py_cmp EQ (PWl mn c mx u) (PTuple [a1, a2, a3]) = Inr True"
    and "num_of c = Some ce" "num_of a2 = Some ce'"
  shows "wl_distance mn c mx u (PTuple [a1, a2, a3]) = Inr (Fin \<bar>ce' - ce\<bar>)"
  using assms by (simp add: wl_distance_def py_abs_diff_def second_item_def)

text \<open>
  \<^bold>\<open>C7.\<close> For a \<^verbatim>\<open>WavelengthRange\<close> whose \<^verbatim>\<open>min\<close>, \<^verbatim>\<open>central\<close> and \<^verbatim>\<open>max\<close> are numbers:
  \<^verbatim>\<open>r == n\<close> holds for a number \<^verbatim>\<open>n\<close> iff \<^verbatim>\<open>min \<le> n \<le> max\<close>, and \<^verbatim>\<open>r.distance(n)\<close> is then
  \<^verbatim>\<open>|n - central|\<close>, else \<^verbatim>\<open>+inf\<close>; for every value \<^verbatim>\<open>v\<close> whatsoever, \<^verbatim>\<open>r.distance(v)\<close> is
  \<^verbatim>\<open>+inf\<close> when \<^verbatim>\<open>r == v\<close> is False; and when \<^verbatim>\<open>r == v\<close> is True for another range or a
  3-tuple, the distance is the absolute difference of the two central values.
\<close>

theorem wavelength_eq_and_distance:
  assumes "num_of mn = Some lo" "num_of c = Some ce" "num_of mx = Some hi"
  shows "(\<forall>n x. num_of n = Some x \<longrightarrow>
            py_cmp EQ (PWl mn c mx u) n = Inr (lo \<le> x \<and> x \<le> hi) \<and>
            wl_distance mn c mx u n =
              Inr (if lo \<le> x \<and> x \<le> hi then Fin \<bar>x - ce\<bar> else Infty))
       \<and> (\<forall>v. py_cmp EQ (PWl mn c mx u) v = Inr False \<longrightarrow>
            wl_distance mn c mx u v = Inr Infty)
       \<and> (\<forall>mn' c' mx' u' ce'.
            num_of c' = Some ce' \<and>
            py_cmp EQ (PWl mn c mx u) (PWl mn' c' mx' u') = Inr True \<longrightarrow>
            wl_distance mn c mx u (PWl mn' c' mx' u') = Inr (Fin \<bar>ce' - ce\<bar>))
       \<and> (\<forall>a1 a2 a3 ce'.
            num_of a2 = Some ce' \<and>
            py_cmp EQ (PWl mn c mx u) (PTuple [a1, a2, a3]) = Inr True \<longrightarrow>
            wl_distance mn c mx u (PTuple [a1, a2, a3]) = Inr (Fin \<bar>ce' - ce\<bar>))"
  using assms
  by (simp add: wl_eq_number wl_distance_number wl_distance_unequal wl_distance_range
      wl_distance_triple)

text \<open>The instances the specification names: \<^verbatim>\<open>WavelengthRange(1, 2, 3) == 2.5\<close> is True,
  \<^verbatim>\<open>== 0.5\<close> is False.\<close>

theorem wavelength_eq_and_distance_witness:
  "py_cmp EQ (PWl (PInt 1) (PInt 2) (PInt 3) (PStr ''um'')) (PFloat 2.5) = Inr True
   \<and> py_cmp EQ (PWl (PInt 1) (PInt 2) (PInt 3) (PStr ''um'')) (PFloat 0.5) = Inr False
   \<and> wl_distance (PInt 1) (PInt 2) (PInt 3) (PStr ''um'') (PFloat 2.5) = Inr (Fin 0.5)
   \<and> wl_distance (PInt 1) (PInt 2) (PInt 3) (PStr ''um'') (PFloat 0.5) = Inr Infty
   \<and> wl_distance (PInt 1) (PInt 2) (PInt 3) (PStr ''um'') (PStr ''x'') = Inr Infty
   \<and> wl_distance (PInt 1) (PInt 2) (PInt 3) (PStr ''um'')
        (PWl (PFloat 1) (PFloat 2) (PFloat 3) (PStr ''um'')) = Inr (Fin 0)
   \<and> wl_distance (PInt 1) (PInt 2) (PInt 3) (PStr ''um'')
        (PTuple [PInt 1, PInt 2, PInt 3]) = Inr (Fin 0)"
proof -
  have h: "num_of (PInt 1) = Some 1" "num_of (PInt 2) = Some 2" "num_of (PInt 3) = Some 3"
    by simp_all
  note t = wavelength_eq_and_distance [OF h, of "PStr ''um''"]
  have a: "py_cmp EQ (PWl (PInt 1) (PInt 2) (PInt 3) (PStr ''um'')) (PFloat 2.5) = Inr True"
     "wl_distance (PInt 1) (PInt 2) (PInt 3) (PStr ''um'') (PFloat 2.5) = Inr (Fin 0.5)"
    using t [THEN conjunct1, rule_format, of "PFloat 2.5" "2.5"] by simp_all
  have b: "py_cmp EQ (PWl (PInt 1) (PInt 2) (PInt 3) (PStr ''um'')) (PFloat 0.5) = Inr False"
     "wl_distance (PInt 1) (PInt 2) (PInt 3) (PStr ''um'') (PFloat 0.5) = Inr Infty"
    using t [THEN conjunct1, rule_format, of "PFloat 0.5" "0.5"] by simp_all
  have e1: "py_cmp EQ (PWl (PInt 1) (PInt 2) (PInt 3) (PStr ''um'')) (PStr ''x'') = Inr False"
    by (simp add: py_cmp.simps)
  have c: "wl_distance (PInt 1) (PInt 2) (PInt 3) (PStr ''um'') (PStr ''x'') = Inr Infty"
    using t e1 by blast
  have e2: "py_cmp EQ (PWl (PInt 1) (PInt 2) (PInt 3) (PStr ''um''))
        (PWl (PFloat 1) (PFloat 2) (PFloat 3) (PStr ''um'')) = Inr True"
    by (simp add: py_cmp.simps)
  have n3: "num_of (PFloat 2) = Some 2" by simp
  have d: "wl_distance (PInt 1) (PInt 2) (PInt 3) (PStr ''um'')
        (PWl (PFloat 1) (PFloat 2) (PFloat 3) (PStr ''um'')) = Inr (Fin 0)"
    using t e2 n3 by fastforce
  have e3: "py_cmp EQ (PWl (PInt 1) (PInt 2) (PInt 3) (PStr ''um''))
        (PTuple [PInt 1, PInt 2, PInt 3]) = Inr True"
    by (simp add: py_cmp.simps)
  have f: "wl_distance (PInt 1) (PInt 2) (PInt 3) (PStr ''um'')
        (PTuple [PInt 1, PInt 2, PInt 3]) = Inr (Fin 0)"
    using t e3 h(2) by fastforce
  show ?thesis using a b c d f by simp
qed

text \<open>
  \<^bold>\<open>C9\<close> (as the code has it). For every \<^verbatim>\<open>WavelengthRange\<close> \<^verbatim>\<open>w\<close>, \<^verbatim>\<open>w < None\<close> is False and
  \<^verbatim>\<open>w > None\<close> is True (\<^verbatim>\<open>None\<close> sorts first); against another \<^verbatim>\<open>WavelengthRange\<close> (numbers
  and a string unit on both sides) \<^verbatim>\<open><\<close> and \<^verbatim>\<open>>\<close> are the lexicographic order on
  \<^verbatim>\<open>(min, central, max, unit)\<close>; against a number both raise \<^verbatim>\<open>TypeError\<close>.
\<close>

theorem wavelength_ordering:
  assumes "is_bare_number mn" "is_bare_number c" "is_bare_number mx"
    "is_bare_number mn'" "is_bare_number c'" "is_bare_number mx'"
    and "num_of mn = Some a1" "num_of c = Some a2" "num_of mx = Some a3"
    and "num_of mn' = Some b1" "num_of c' = Some b2" "num_of mx' = Some b3"
  shows "py_cmp LT (PWl mn c mx (PStr u)) PNone = Inr False
       \<and> py_cmp GT (PWl mn c mx (PStr u)) PNone = Inr True
       \<and> py_cmp LT (PWl mn c mx (PStr u)) (PWl mn' c' mx' (PStr u'))
           = Inr ((a1, a2, a3, u) < (b1, b2, b3, u'))
       \<and> py_cmp GT (PWl mn c mx (PStr u)) (PWl mn' c' mx' (PStr u'))
           = Inr ((a1, a2, a3, u) > (b1, b2, b3, u'))
       \<and> (\<forall>n. is_number n \<longrightarrow>
             py_cmp LT (PWl mn c mx (PStr u)) n = unorderable \<and>
             py_cmp GT (PWl mn c mx (PStr u)) n = unorderable)"
proof -
  have e1: "py_cmp EQ mn mn' = Inr (a1 = b1)" "py_cmp LT mn mn' = Inr (a1 < b1)"
     "py_cmp GT mn mn' = Inr (a1 > b1)"
    using assms by (simp_all add: bare_cmp)
  have e2: "py_cmp EQ c c' = Inr (a2 = b2)" "py_cmp LT c c' = Inr (a2 < b2)"
     "py_cmp GT c c' = Inr (a2 > b2)"
    using assms by (simp_all add: bare_cmp)
  have e3: "py_cmp EQ mx mx' = Inr (a3 = b3)" "py_cmp LT mx mx' = Inr (a3 < b3)"
     "py_cmp GT mx mx' = Inr (a3 > b3)"
    using assms by (simp_all add: bare_cmp)
  have e4: "py_cmp EQ (PStr u) (PStr u') = Inr (u = u')" "py_cmp LT (PStr u) (PStr u') = Inr (u < u')"
     "py_cmp GT (PStr u) (PStr u') = Inr (u > u')"
    by (simp_all add: py_cmp.simps)
  have lt: "py_cmp LT (PWl mn c mx (PStr u)) (PWl mn' c' mx' (PStr u'))
           = Inr ((a1, a2, a3, u) < (b1, b2, b3, u'))"
    by (simp add: py_cmp.simps(9) e1 e2 e3 e4) (auto simp: less_le)
  have gt: "py_cmp GT (PWl mn c mx (PStr u)) (PWl mn' c' mx' (PStr u'))
           = Inr ((a1, a2, a3, u) > (b1, b2, b3, u'))"
    by (simp add: py_cmp.simps(9) e1 e2 e3 e4) (auto simp: less_le)
  have none: "py_cmp LT (PWl mn c mx (PStr u)) PNone = Inr False"
     "py_cmp GT (PWl mn c mx (PStr u)) PNone = Inr True"
    by (simp_all add: py_cmp.simps)
  have num: "py_cmp LT (PWl mn c mx (PStr u)) n = unorderable \<and>
             py_cmp GT (PWl mn c mx (PStr u)) n = unorderable" if "is_number n" for n
    using that by (cases n) (simp_all add: py_cmp.simps is_number_def)
  show ?thesis using lt gt none num by blast
qed

theorem wavelength_ordering_witness:
  "py_cmp LT (PWl (PInt 1) (PInt 2) (PInt 3) (PStr ''um'')) PNone = Inr False
   \<and> py_cmp GT (PWl (PInt 1) (PInt 2) (PInt 3) (PStr ''um'')) PNone = Inr True
   \<and> py_cmp LT (PWl (PInt 1) (PInt 2) (PInt 3) (PStr ''um''))
        (PWl (PInt 1) (PFloat 2.5) (PInt 3) (PStr ''um'')) = Inr True
   \<and> py_cmp GT (PWl (PInt 1) (PInt 2) (PInt 3) (PStr ''um''))
        (PWl (PInt 1) (PFloat 2.5) (PInt 3) (PStr ''um'')) = Inr False
   \<and> py_cmp LT (PWl (PInt 1) (PInt 2) (PInt 3) (PStr ''um'')) (PInt 7) = unorderable"
proof -
  have b: "is_bare_number (PInt 1)" "is_bare_number (PInt 2)" "is_bare_number (PInt 3)"
    "is_bare_number (PInt 1)" "is_bare_number (PFloat 2.5)" "is_bare_number (PInt 3)"
    by (simp_all add: is_bare_number_def)
  have n: "num_of (PInt 1) = Some 1" "num_of (PInt 2) = Some 2" "num_of (PInt 3) = Some 3"
    "num_of (PInt 1) = Some 1" "num_of (PFloat 2.5) = Some 2.5" "num_of (PInt 3) = Some 3"
    by simp_all
  have "is_number (PInt 7)" by (simp add: is_number_def)
  then show ?thesis
    using wavelength_ordering [OF b n, of "''um''" "''um''"] by simp
qed

text \<open>\<^verbatim>\<open>w < None\<close> does not hold: \<^verbatim>\<open>__lt__\<close> returns False on \<^verbatim>\<open>None\<close>.\<close>

theorem wavelength_lt_none_counterexample:
  "\<not> (py_cmp LT (PWl (PInt 1) (PInt 2) (PInt 3) (PStr ''um'')) PNone = Inr True)"
  by (simp add: py_cmp.simps)

section \<open>Properties of the metadata combiner\<close>

lemma gather_no_dict:
  "list_all (\<lambda>m. metadata_dict m = None) ms \<Longrightarrow> gather ms shared seen = (shared, seen)"
  by (induction ms arbitrary: shared seen) auto

text \<open>
  \<^bold>\<open>C10.\<close> \<^verbatim>\<open>combine_metadata\<close> called with no argument, or with arguments none of which is a
  dictionary or has an \<^verbatim>\<open>attrs\<close> dictionary, raises \<^verbatim>\<open>TypeError\<close> (it iterates
  \<^verbatim>\<open>shared_keys\<close>, still \<^verbatim>\<open>None\<close>); it does not return an empty mapping.
\<close>

theorem combine_metadata_without_dict_raises:
  "list_all (\<lambda>m. metadata_dict m = None) metadata_objects \<Longrightarrow>
   combine_metadata key_order metadata_objects average_times
     = Inl (TypeError ''NoneType object is not iterable'')"
  by (simp add: combine_metadata_def gather_no_dict)

theorem combine_metadata_without_dict_raises_witness:
  "combine_metadata [] [] True = Inl (TypeError ''NoneType object is not iterable'')
   \<and> combine_metadata [''a''] [MOther, MOther] False
       = Inl (TypeError ''NoneType object is not iterable'')"
  using combine_metadata_without_dict_raises [of "[]" "[]" True]
    combine_metadata_without_dict_raises [of "[MOther, MOther]" "[''a'']" False]
  by simp

text \<open>When some value is array-like and no \<^verbatim>\<open>len\<close> raises, the decision is the identity test:
  every value is the same object as the first.\<close>

lemma share_key_array_branch:
  assumes "list_ex has_array vals" "sequence (map is_list_of_arrays vals) = Inr flags"
  shows "share_metadata_key k vals avg = Inr (share_metadata_key_array vals)"
  using assms by (simp add: share_metadata_key_def)

lemma share_metadata_key_array_iff:
  "share_metadata_key_array (first # rest) \<longleftrightarrow> (\<forall>v \<in> set rest. fst v = fst first)"
  by (simp add: share_metadata_key_array_def same_object_def list_all_iff)

lemma sized_sequence:
  "(\<And>v. v \<in> set vals \<Longrightarrow> is_list_of_arrays v \<noteq> Inl (TypeError ''len() of unsized object''))
   \<Longrightarrow> \<exists>flags. sequence (map is_list_of_arrays vals) = Inr flags"
proof (induction vals)
  case Nil
  then show ?case by simp
next
  case (Cons v vs)
  have "is_list_of_arrays v \<noteq> Inl (TypeError ''len() of unsized object'')"
    using Cons.prems by simp
  then obtain b where b: "is_list_of_arrays v = Inr b"
    by (auto simp: is_list_of_arrays_def split: obj.splits list.splits)
  obtain flags where "sequence (map is_list_of_arrays vs) = Inr flags"
    using Cons by auto
  then show ?case using b by simp
qed

text \<open>At the level of \<^verbatim>\<open>combine_metadata\<close>: when it returns, a key is in the result exactly
  when \<^verbatim>\<open>_share_metadata_key\<close> said so; for a key with an array-like value that is the
  identity test.\<close>

lemma combine_loop_keys:
  "combine_loop info_dicts avg ks acc = Inr res \<Longrightarrow>
   (k \<in> set (map fst res)) =
     (k \<in> set (map fst acc) \<or>
      (k \<in> set ks \<and> (\<exists>vals. values_of info_dicts k = Inr vals
                          \<and> share_metadata_key k vals avg = Inr True)))"
proof (induction ks arbitrary: acc)
  case Nil
  then show ?case by simp
next
  case (Cons k1 ks)
  obtain vals where v: "values_of info_dicts k1 = Inr vals"
    using Cons.prems by (auto simp: values_of_def split: sum.splits)
  obtain t where t: "share_metadata_key k1 vals avg = Inr t"
    using Cons.prems v by (auto simp: values_of_def split: sum.splits)
  have "\<exists>acc'. combine_loop info_dicts avg ks acc' = Inr res \<and>
          (acc' = acc \<and> \<not> t \<or> (\<exists>rv. acc' = acc @ [(k1, rv)]) \<and> t)"
    using Cons.prems v t
    by (fastforce simp: values_of_def split: sum.splits if_splits list.splits)
  then obtain acc' where a: "combine_loop info_dicts avg ks acc' = Inr res"
    "acc' = acc \<and> \<not> t \<or> (\<exists>rv. acc' = acc @ [(k1, rv)]) \<and> t"
    by blast
  have s: "(k \<in> set (map fst acc')) = (k \<in> set (map fst acc) \<or> (k = k1 \<and> t))"
    using a(2) by auto
  show ?case using Cons.IH [OF a(1)] s v t by auto
qed

lemma combine_loop_shares:
  "combine_loop info_dicts avg ks acc = Inr res \<Longrightarrow> k \<in> set ks \<Longrightarrow>
   values_of info_dicts k = Inr vals \<Longrightarrow> \<exists>t. share_metadata_key k vals avg = Inr t"
proof (induction ks arbitrary: acc)
  case Nil
  then show ?case by simp
next
  case (Cons k1 ks)
  show ?case
  proof (cases "k = k1")
    case True
    then show ?thesis using Cons.prems(1,3)
      by (auto simp: values_of_def split: sum.splits)
  next
    case False
    then have "k \<in> set ks" using Cons.prems(2) by simp
    moreover have "\<exists>acc'. combine_loop info_dicts avg ks acc' = Inr res"
      using Cons.prems(1)
      by (fastforce split: sum.splits if_splits list.splits)
    ultimately show ?thesis using Cons.IH Cons.prems(3) by blast
  qed
qed

lemma combine_metadata_array_key:
  assumes "combine_metadata key_order objs avg = Inr res"
    and "gather objs None [] = (shared, info_dicts)"
    and "k \<in> set key_order"
    and "values_of info_dicts k = Inr (first # rest)"
    and "list_ex has_array (first # rest)"
  shows "(k \<in> set (map fst res)) = (\<forall>v \<in> set rest. fst v = fst first)"
proof -
  have loop: "combine_loop info_dicts avg key_order [] = Inr res"
    using assms(1,2) by (auto simp: combine_metadata_def split: option.splits)
  obtain t where t: "share_metadata_key k (first # rest) avg = Inr t"
    using combine_loop_shares [OF loop assms(3,4)] by blast
  then obtain flags where "sequence (map is_list_of_arrays (first # rest)) = Inr flags"
    by (auto simp: share_metadata_key_def Let_def split: sum.splits)
  then have "share_metadata_key k (first # rest) avg = Inr (share_metadata_key_array (first # rest))"
    using share_key_array_branch assms(5) by blast
  then show ?thesis
    using combine_loop_keys [OF loop, of k] assms(3,4)
    by (simp add: share_metadata_key_array_iff)
qed

text \<open>
  \<^bold>\<open>C8.\<close> The identity rule is what \<^verbatim>\<open>_share_metadata_key_array\<close> computes (the lemmas
  above), but \<^verbatim>\<open>_share_metadata_key\<close> evaluates the \<^verbatim>\<open>list_of_arrays\<close> comprehension first,
  and \<^verbatim>\<open>len\<close> raises on a 0-d array: two inputs sharing the very same 0-d array under a key
  make \<^verbatim>\<open>combine_metadata\<close> raise \<^verbatim>\<open>TypeError\<close> instead of keeping the key.
\<close>

theorem combine_metadata_unsized_array_raises:
  "combine_metadata [''x'']
     [MDict [(''x'', (0, OArray [] [5]))], MDict [(''x'', (0, OArray [] [5]))]] True
   = Inl (TypeError ''len() of unsized object'')"
  by (simp add: combine_metadata_def getitem_def share_metadata_key_def is_list_of_arrays_def)

theorem combine_metadata_unsized_array_raises_witness:
  "\<exists>e. combine_metadata [''x'']
     [MDict [(''x'', (0, OArray [] [5]))], MDict [(''x'', (0, OArray [] [5]))]] True = Inl e"
  using combine_metadata_unsized_array_raises by simp

section \<open>Properties of DataID\<close>

subsection \<open>Immutability\<close>

text \<open>
  \<^bold>\<open>C3.\<close> Every mutating operation on a \<^verbatim>\<open>DataID\<close> (item assignment, item deletion, \<^verbatim>\<open>pop\<close>,
  \<^verbatim>\<open>popitem\<close>, \<^verbatim>\<open>clear\<close>, \<^verbatim>\<open>update\<close>, \<^verbatim>\<open>setdefault\<close>) raises \<^verbatim>\<open>TypeError\<close>; the hash taken after the
  failed attempt is the hash taken before it, and the items (hence the set of fields) are
  unchanged.
\<close>

theorem dataid_immutable:
  "fst (mutate m d) = Inl (TypeError ''Cannot change a DataID'')
   \<and> (let d1 = snd (dataid_hash H d); d2 = snd (mutate m d1) in
        fst (dataid_hash H d2) = fst (dataid_hash H d)
        \<and> items d2 = items d
        \<and> set (map fst (items d2)) = set (map fst (items d)))"
  by (cases m) (auto simp: immutable_def dataid_hash_def Let_def split: option.splits sum.splits)

theorem dataid_immutable_witness:
  "fst (mutate (SetItem ''name'' (PStr ''b'')) id_d) = Inl (TypeError ''Cannot change a DataID'')
   \<and> fst (dataid_hash hasher0 (snd (mutate Clear (snd (dataid_hash hasher0 id_d)))))
       = fst (dataid_hash hasher0 id_d)
   \<and> items (snd (mutate Clear (snd (dataid_hash hasher0 id_d)))) = items id_d"
  using dataid_immutable [of "SetItem ''name'' (PStr ''b'')" id_d hasher0]
    dataid_immutable [of Clear id_d hasher0]
  by (simp add: Let_def)

subsection \<open>Construction\<close>

lemma map_of_dict_set: "map_of (dict_set d k v) = (map_of d)(k \<mapsto> v)"
  by (induction d) (auto simp: fun_eq_iff)

lemma dict_has_set: "dict_has (dict_set d k v) k' = (k' = k \<or> dict_has d k')"
  by (simp add: dict_has_def map_of_dict_set)

lemma convert_not_missing: "type_convert t v \<noteq> Inl (missing_required k)"
  by (cases t)
    (auto simp: missing_required_def wavelength_convert_def modifier_convert_def
      value_list_convert_def member_lookup_def
      split: option.splits list.splits pyval.splits if_splits)

lemma convert_loop_missing:
  "convert_loop F raw cur = Inl (missing_required k)
   \<Longrightarrow> \<exists>val. (k, val) \<in> set F \<and> raises_missing raw k val"
proof (induction F arbitrary: cur)
  case Nil
  then show ?case by simp
next
  case (Cons p F)
  obtain k1 v1 where p: "p = (k1, v1)" by (cases p)
  show ?case
  proof (cases "raises_missing raw k1 v1")
    case True
    then have "convert_loop (p # F) raw cur = Inl (missing_required k1)"
      by (auto simp: p raises_missing_def Let_def split: option.splits)
    then have "k = k1" using Cons.prems by (simp add: missing_required_def)
    then show ?thesis using True p by auto
  next
    case False
    then have "\<exists>cur'. convert_loop F raw cur' = Inl (missing_required k)"
      using Cons.prems convert_not_missing
      by (auto simp: p raises_missing_def Let_def split: option.splits if_splits sum.splits)
    then show ?thesis using Cons.IH by auto
  qed
qed

lemma convert_loop_fails:
  "(k, val) \<in> set F \<Longrightarrow> raises_missing raw k val \<Longrightarrow> \<exists>err. convert_loop F raw cur = Inl err"
proof (induction F arbitrary: cur)
  case Nil
  then show ?case by simp
next
  case (Cons p F)
  obtain k1 v1 where p: "p = (k1, v1)" by (cases p)
  show ?case
  proof (cases "raises_missing raw k1 v1")
    case True
    then show ?thesis by (auto simp: p raises_missing_def Let_def split: option.splits)
  next
    case False
    then have "(k, val) \<in> set F" using Cons.prems p by auto
    then have ih: "\<exists>err. convert_loop F raw cur' = Inl err" for cur'
      using Cons.IH Cons.prems by blast
    show ?thesis
      using ih by (auto simp: p Let_def split: option.splits sum.splits)
  qed
qed

lemma convert_step:
  assumes "\<not> field_raises raw (k1, v1)"
  shows "\<exists>cur'. convert_loop ((k1, v1) # F) raw cur = convert_loop F raw cur'"
proof (cases v1)
  case None
  then show ?thesis by (cases "map_of raw k1") auto
next
  case (Some e)
  note v1 = Some
  show ?thesis
  proof (cases "dict_has raw k1 \<or> get_default e \<noteq> PNone \<or> required_truthy e")
    case False
    then show ?thesis using v1 by auto
  next
    case True
    have nm: "\<not> (e_required e \<noteq> None \<and> dict_get raw k1 (get_default e) = PNone)"
      using assms True v1 by (auto simp: field_raises_def raises_missing_def)
    show ?thesis
    proof (cases "e_type e")
      case None
      then show ?thesis using True nm v1 by (auto simp: Let_def)
    next
      case (Some t)
      have "conversion_raises raw k1 v1
            = (\<exists>err. type_convert t (dict_get raw k1 (get_default e)) = Inl err)"
        using True nm v1 Some by (auto simp: conversion_raises_def split: sum.splits)
      then obtain v where "type_convert t (dict_get raw k1 (get_default e)) = Inr v"
        using assms by (cases "type_convert t (dict_get raw k1 (get_default e))")
          (auto simp: field_raises_def)
      then show ?thesis using True nm Some v1 by (auto simp: Let_def)
    qed
  qed
qed

lemma convert_head_missing:
  "raises_missing raw k1 v1 \<Longrightarrow> convert_loop ((k1, v1) # F) raw cur = Inl (missing_required k1)"
  by (auto simp: raises_missing_def Let_def split: option.splits)

lemma convert_head_conversion:
  assumes "conversion_raises raw k1 v1"
  shows "\<exists>err. convert_loop ((k1, v1) # F) raw cur = Inl err \<and> (\<forall>k'. err \<noteq> missing_required k')"
proof -
  obtain e where e: "v1 = Some e"
    "dict_has raw k1 \<or> get_default e \<noteq> PNone \<or> required_truthy e"
    "\<not> (e_required e \<noteq> None \<and> dict_get raw k1 (get_default e) = PNone)"
    and ty: "case e_type e of None \<Rightarrow> False
             | Some t \<Rightarrow> (case type_convert t (dict_get raw k1 (get_default e)) of
                           Inl err \<Rightarrow> True | Inr v \<Rightarrow> False)"
    using assms by (cases v1) (simp_all add: conversion_raises_def)
  obtain t where t: "e_type e = Some t"
    using ty by (cases "e_type e") simp_all
  obtain err where err: "type_convert t (dict_get raw k1 (get_default e)) = Inl err"
    using ty t by (cases "type_convert t (dict_get raw k1 (get_default e))") simp_all
  have "convert_loop ((k1, v1) # F) raw cur = Inl err"
    using e t err by (auto simp: Let_def)
  moreover have "err \<noteq> missing_required k'" for k'
    using err convert_not_missing [of t "dict_get raw k1 (get_default e)" k'] by auto
  ultimately show ?thesis by blast
qed

lemma first_raising_none:
  "first_raising F raw = None \<Longrightarrow> \<exists>res. convert_loop F raw cur = Inr res"
proof (induction F arbitrary: cur)
  case Nil
  then show ?case by simp
next
  case (Cons p F)
  obtain k1 v1 where p: "p = (k1, v1)" by (cases p)
  have nr: "\<not> field_raises raw (k1, v1)" and rest: "first_raising F raw = None"
    using Cons.prems by (auto simp: first_raising_def p split: if_splits)
  obtain cur' where "convert_loop (p # F) raw cur = convert_loop F raw cur'"
    using convert_step [OF nr] p by blast
  then show ?case using Cons.IH [OF rest] by simp
qed

lemma first_raising_some:
  "first_raising F raw = Some (k, val)
   \<Longrightarrow> (raises_missing raw k val \<longrightarrow> convert_loop F raw cur = Inl (missing_required k))
     \<and> (\<not> raises_missing raw k val \<longrightarrow>
          (\<exists>err. convert_loop F raw cur = Inl err \<and> (\<forall>k'. err \<noteq> missing_required k')))"
proof (induction F arbitrary: cur)
  case Nil
  then show ?case by (simp add: first_raising_def)
next
  case (Cons p F)
  obtain k1 v1 where p: "p = (k1, v1)" by (cases p)
  show ?case
  proof (cases "field_raises raw (k1, v1)")
    case True
    then have eq: "k = k1" "val = v1"
      using Cons.prems by (auto simp: first_raising_def p)
    show ?thesis
      using True convert_head_missing [of raw k1 v1 F cur]
        convert_head_conversion [of raw k1 v1 F cur]
      by (auto simp: eq p field_raises_def)
  next
    case False
    then have rest: "first_raising F raw = Some (k, val)"
      using Cons.prems by (auto simp: first_raising_def p)
    obtain cur' where "convert_loop (p # F) raw cur = convert_loop F raw cur'"
      using convert_step [OF False] p by blast
    then show ?thesis using Cons.IH [OF rest, of cur'] by simp
  qed
qed

lemma missing_required_inj: "(missing_required k = missing_required k') = (k = k')"
  by (simp add: missing_required_def)

lemma convert_loop_missing_iff:
  "(convert_loop F raw cur = Inl (missing_required k))
   = (\<exists>val. first_raising F raw = Some (k, val) \<and> raises_missing raw k val)"
proof (cases "first_raising F raw")
  case None
  then show ?thesis using first_raising_none [OF None, of cur] by auto
next
  case (Some p)
  obtain k0 v0 where p: "p = (k0, v0)" by (cases p)
  show ?thesis
    using first_raising_some [of F raw k0 v0 cur] Some p
    by (cases "raises_missing raw k0 v0") (auto simp: missing_required_inj)
qed

lemma convert_loop_ok_iff:
  "(\<exists>res. convert_loop F raw cur = Inr res) = (first_raising F raw = None)"
proof (cases "first_raising F raw")
  case None
  then show ?thesis using first_raising_none [OF None, of cur] by auto
next
  case (Some p)
  obtain k0 v0 where p: "p = (k0, v0)" by (cases p)
  show ?thesis
    using first_raising_some [of F raw k0 v0 cur] Some p
    by (cases "raises_missing raw k0 v0") auto
qed

lemma convert_loop_keys:
  "convert_loop F raw cur = Inr res
   \<Longrightarrow> dict_has res k = (dict_has cur k \<or> (\<exists>val. (k, val) \<in> set F \<and> code_included raw k val))"
proof (induction F arbitrary: cur)
  case Nil
  then show ?case by simp
next
  case (Cons p F)
  obtain k1 v1 where p: "p = (k1, v1)" by (cases p)
  have "\<exists>cur'. convert_loop F raw cur' = Inr res \<and>
          (cur' = cur \<and> \<not> code_included raw k1 v1
           \<or> (\<exists>v. cur' = dict_set cur k1 v) \<and> code_included raw k1 v1)"
    using Cons.prems
    by (fastforce simp: p code_included_def Let_def dict_has_def dict_get_def
        split: option.splits if_splits sum.splits)
  then obtain cur0 where c0: "convert_loop F raw cur0 = Inr res"
    "cur0 = cur \<and> \<not> code_included raw k1 v1
           \<or> (\<exists>v. cur0 = dict_set cur k1 v) \<and> code_included raw k1 v1"
    by blast
  have h: "dict_has cur0 k = (dict_has cur k \<or> (k = k1 \<and> code_included raw k1 v1))"
    using c0(2) by (auto simp: dict_has_set)
  show ?case using Cons.IH [OF c0(1)] h p by auto
qed

lemma fix_entry_props:
  assumes "fix_entry k v = Inr v'"
  shows "(v = None \<longleftrightarrow> v' = None)"
    and "\<And>e'. v' = Some e' \<Longrightarrow>
           \<exists>e. v = Some e \<and> e_required e' = e_required e \<and> e_default e' = e_default e"
    and "\<And>e. v = Some e \<Longrightarrow>
           \<exists>e'. v' = Some e' \<and> e_required e' = e_required e \<and> e_default e' = e_default e"
  using assms
  by (auto simp: fix_entry_def split: if_splits option.splits sum.splits)

lemma fix_id_keys_set:
  "fix_id_keys S = Inr F
   \<Longrightarrow> ((k, v') \<in> set F) = (\<exists>v. (k, v) \<in> set S \<and> fix_entry k v = Inr v')"
proof (induction S arbitrary: F)
  case Nil
  then show ?case by auto
next
  case (Cons p S)
  obtain k1 v1 where p: "p = (k1, v1)" by (cases p)
  obtain w F' where w: "fix_entry k1 v1 = Inr w" "fix_id_keys S = Inr F'" "F = (k1, w) # F'"
    using Cons.prems by (auto simp: p split: sum.splits)
  show ?case using Cons.IH [OF w(2)] w p by auto
qed

lemma fix_id_keys_total:
  "fix_id_keys S = Inr F \<Longrightarrow> (k, v) \<in> set S \<Longrightarrow> \<exists>v'. fix_entry k v = Inr v' \<and> (k, v') \<in> set F"
proof (induction S arbitrary: F)
  case Nil
  then show ?case by auto
next
  case (Cons p S)
  obtain k1 v1 where p: "p = (k1, v1)" by (cases p)
  obtain w F' where w: "fix_entry k1 v1 = Inr w" "fix_id_keys S = Inr F'" "F = (k1, w) # F'"
    using Cons.prems by (auto simp: p split: sum.splits)
  show ?case using Cons.IH [OF w(2)] Cons.prems(2) w p by auto
qed

lemma fix_not_missing: "fix_id_keys S \<noteq> Inl (missing_required k)"
proof (induction S)
  case Nil
  then show ?case by simp
next
  case (Cons p S)
  obtain k1 v1 where p: "p = (k1, v1)" by (cases p)
  have "fix_entry k1 v1 \<noteq> Inl (missing_required k)"
    by (auto simp: fix_entry_def value_list_class_def missing_required_def Let_def
        split: if_splits option.splits sum.splits)
  then show ?case using Cons by (auto simp: p split: sum.splits)
qed

lemma get_default_cong: "e_default e' = e_default e \<Longrightarrow> get_default e' = get_default e"
  by (simp add: get_default_def)

lemma required_truthy_cong: "e_required e' = e_required e \<Longrightarrow> required_truthy e' = required_truthy e"
  by (simp add: required_truthy_def)

lemma init_unfold:
  "raw \<noteq> [] \<Longrightarrow> fix_id_keys S = Inr F \<Longrightarrow>
   dataid_init (Some S) raw =
     (case convert_loop F raw [] of
        Inl err \<Rightarrow> Inl err
      | Inr curated \<Rightarrow>
          Inr \<lparr>hash_cache = None, orig_id_keys = Some S, id_keys = F, items = curated\<rparr>)"
  by (simp add: dataid_init_def convert_dict_def)

lemma init_missing_sound:
  assumes "dataid_init (Some S) raw = Inl (missing_required k)"
  shows "\<exists>e. (k, Some e) \<in> set S \<and> e_required e \<noteq> None \<and> dict_get raw k (get_default e) = PNone"
proof -
  obtain F where F: "fix_id_keys S = Inr F"
    using assms fix_not_missing [of S k] by (cases "fix_id_keys S") (auto simp: dataid_init_def)
  have ne: "raw \<noteq> []" using assms F by (auto simp: dataid_init_def)
  have "convert_loop F raw [] = Inl (missing_required k)"
    using assms init_unfold [OF ne F] by (auto split: sum.splits)
  then obtain val where v: "(k, val) \<in> set F" "raises_missing raw k val"
    using convert_loop_missing by blast
  then obtain e' where e': "val = Some e'" "e_required e' \<noteq> None"
    "dict_get raw k (get_default e') = PNone"
    by (auto simp: raises_missing_def split: option.splits)
  obtain v0 where v0: "(k, v0) \<in> set S" "fix_entry k v0 = Inr (Some e')"
    using fix_id_keys_set [OF F, of k val] v(1) e'(1) by auto
  obtain e where e: "v0 = Some e" "e_required e' = e_required e" "e_default e' = e_default e"
    using fix_entry_props(2) [OF v0(2)] by blast
  show ?thesis using v0(1) e e'(2,3) get_default_cong [OF e(3)] by auto
qed

lemma init_missing_fails:
  assumes "raw \<noteq> []" "(k, Some e) \<in> set S" "required_truthy e"
    "dict_get raw k (get_default e) = PNone"
  shows "\<exists>err. dataid_init (Some S) raw = Inl err"
proof (cases "fix_id_keys S")
  case (Inl err)
  then show ?thesis by (simp add: dataid_init_def)
next
  case (Inr F)
  obtain v' where v': "fix_entry k (Some e) = Inr v'" "(k, v') \<in> set F"
    using fix_id_keys_total [OF Inr assms(2)] by blast
  obtain e' where e': "v' = Some e'" "e_required e' = e_required e" "e_default e' = e_default e"
    using fix_entry_props(3) [OF v'(1)] by blast
  have "raises_missing raw k (Some e')"
    using assms(3,4) e'(2) get_default_cong [OF e'(3)] required_truthy_cong [OF e'(2)]
    by (auto simp: raises_missing_def required_truthy_def)
  then obtain err where "convert_loop F raw [] = Inl err"
    using convert_loop_fails v'(2) e'(1) by blast
  then show ?thesis using init_unfold [OF assms(1) Inr] by simp
qed

lemma first_raising_mem:
  "first_raising F raw = Some p \<Longrightarrow> p \<in> set F \<and> field_raises raw p"
  by (auto simp: first_raising_def find_Some_iff)

lemma flags_fixed:
  assumes "required_flags_true S" "fix_id_keys S = Inr F" "(k, Some e') \<in> set F"
  shows "e_required e' \<noteq> Some False"
proof -
  obtain v where v: "(k, v) \<in> set S" "fix_entry k v = Inr (Some e')"
    using fix_id_keys_set [OF assms(2), of k "Some e'"] assms(3) by auto
  obtain e where e: "v = Some e" "e_required e' = e_required e"
    using fix_entry_props(2) [OF v(2)] by blast
  have "e_required e \<noteq> Some False"
    using assms(1) v(1) e(1) by (auto simp: required_flags_true_def list_all_iff)
  then show ?thesis using e(2) by simp
qed

lemma raises_missing_flag:
  "e_required e \<noteq> Some False \<Longrightarrow>
   raises_missing raw k (Some e)
   = (required_truthy e \<and> dict_get raw k (get_default e) = PNone)"
  by (cases "e_required e") (auto simp: raises_missing_def required_truthy_def)

lemma init_missing_iff:
  assumes "fix_id_keys S = Inr F" "raw \<noteq> []" "required_flags_true S"
  shows "(dataid_init (Some S) raw = Inl (missing_required k))
         = (\<exists>e. first_raising F raw = Some (k, Some e) \<and> required_truthy e
                \<and> dict_get raw k (get_default e) = PNone)"
proof -
  have "(dataid_init (Some S) raw = Inl (missing_required k))
        = (convert_loop F raw [] = Inl (missing_required k))"
    using init_unfold [OF assms(2,1)] by (auto split: sum.splits)
  also have "\<dots> = (\<exists>val. first_raising F raw = Some (k, val) \<and> raises_missing raw k val)"
    by (rule convert_loop_missing_iff)
  also have "\<dots> = (\<exists>e. first_raising F raw = Some (k, Some e) \<and> raises_missing raw k (Some e))"
    by (auto simp: raises_missing_def split: option.splits)
  also have "\<dots> = (\<exists>e. first_raising F raw = Some (k, Some e) \<and> required_truthy e
                \<and> dict_get raw k (get_default e) = PNone)"
    using raises_missing_flag flags_fixed [OF assms(3,1)] first_raising_mem by blast
  finally show ?thesis .
qed

lemma init_ok_iff:
  assumes "fix_id_keys S = Inr F" "raw \<noteq> []"
  shows "(\<exists>d. dataid_init (Some S) raw = Inr d) = (first_raising F raw = None)"
  using init_unfold [OF assms(2,1)] convert_loop_ok_iff [of F raw "[]"]
  by (auto split: sum.splits)

lemma init_missing_sound_flag:
  assumes "required_flags_true S" "dataid_init (Some S) raw = Inl (missing_required k)"
  shows "\<exists>e. (k, Some e) \<in> set S \<and> required_truthy e \<and> dict_get raw k (get_default e) = PNone"
proof -
  obtain e where e: "(k, Some e) \<in> set S" "e_required e \<noteq> None"
    "dict_get raw k (get_default e) = PNone"
    using init_missing_sound [OF assms(2)] by blast
  have "e_required e \<noteq> Some False"
    using assms(1) e(1) by (auto simp: required_flags_true_def list_all_iff)
  then have "required_truthy e" using e(2) by (cases "e_required e") (auto simp: required_truthy_def)
  then show ?thesis using e by blast
qed

lemma init_missing_kind:
  assumes "raw \<noteq> []" "(k, Some e) \<in> set S" "required_truthy e"
    "dict_get raw k (get_default e) = PNone"
    "fix_id_keys S = Inr F" "no_conversion_raises F raw"
  shows "\<exists>k'. dataid_init (Some S) raw = Inl (missing_required k')"
proof -
  obtain v' where v': "fix_entry k (Some e) = Inr v'" "(k, v') \<in> set F"
    using fix_id_keys_total [OF assms(5,2)] by blast
  obtain e' where e': "v' = Some e'" "e_required e' = e_required e" "e_default e' = e_default e"
    using fix_entry_props(3) [OF v'(1)] by blast
  have rm: "raises_missing raw k (Some e')"
    using assms(3,4) e'(2) get_default_cong [OF e'(3)] required_truthy_cong [OF e'(2)]
    by (auto simp: raises_missing_def required_truthy_def)
  have "first_raising F raw \<noteq> None"
    using rm v'(2) e'(1) by (auto simp: first_raising_def find_None_iff field_raises_def)
  then obtain k0 v0 where f: "first_raising F raw = Some (k0, v0)" by auto
  have "(k0, v0) \<in> set F" "field_raises raw (k0, v0)"
    using first_raising_mem [OF f] by auto
  then have "raises_missing raw k0 v0"
    using assms(6) by (auto simp: no_conversion_raises_def list_all_iff field_raises_def)
  then have "convert_loop F raw [] = Inl (missing_required k0)"
    using first_raising_some [OF f] by blast
  then show ?thesis using init_unfold [OF assms(1,5)] by auto
qed


lemma spec_missing_resolves:
  assumes "\<forall>(k, v) \<in> set raw. v \<noteq> PNone"
  shows "spec_missing_required S raw
         = (\<exists>k e. (k, Some e) \<in> set S \<and> required_truthy e
                  \<and> dict_get raw k (get_default e) = PNone)"
proof -
  have "(dict_get raw k d = PNone) = (\<not> dict_has raw k \<and> d = PNone)" for k d
  proof (cases "map_of raw k")
    case None
    then show ?thesis by (simp add: dict_get_def dict_has_def)
  next
    case (Some v)
    then have "v \<noteq> PNone" using assms map_of_SomeD [OF Some] by auto
    then show ?thesis using Some by (simp add: dict_get_def dict_has_def)
  qed
  then show ?thesis by (simp add: spec_missing_required_def)
qed

lemma init_missing_exactly:
  assumes "fix_id_keys S = Inr F" "raw \<noteq> []" "required_flags_true S" "no_conversion_raises F raw"
  shows "(\<exists>k. dataid_init (Some S) raw = Inl (missing_required k))
         = (\<exists>k e. (k, Some e) \<in> set S \<and> required_truthy e
                  \<and> dict_get raw k (get_default e) = PNone)"
  using init_missing_sound_flag [OF assms(3)] init_missing_kind [OF assms(2) _ _ _ assms(1,4)]
  by blast

lemma init_included:
  assumes "raw \<noteq> []" "dataid_init (Some S) raw = Inr d"
    and nn: "\<forall>(k, v) \<in> set raw. v \<noteq> PNone"
  shows "dict_has (items d) k = spec_included S raw k"
proof -
  obtain F where F: "fix_id_keys S = Inr F"
    using assms(2) by (cases "fix_id_keys S") (auto simp: dataid_init_def)
  have loop: "convert_loop F raw [] = Inr (items d)"
    using assms(2) init_unfold [OF assms(1) F] by (auto split: sum.splits)
  have no_raise: "\<not> raises_missing raw k' val" if "(k', val) \<in> set F" for k' val
    using convert_loop_fails [OF that, of raw "[]"] loop by auto
  have raw_val: "v \<noteq> PNone" if "map_of raw k' = Some v" for k' v
    using nn map_of_SomeD [OF that] by auto
  have incl: "code_included raw k' val =
      (dict_has raw k' \<or> (case val of None \<Rightarrow> False
                            | Some e \<Rightarrow> get_default e \<noteq> PNone \<or> required_truthy e))"
    if "(k', val) \<in> set F" for k' val
  proof (cases val)
    case None
    then show ?thesis using raw_val by (auto simp: code_included_def dict_has_def)
  next
    case (Some e)
    have "dict_get raw k' (get_default e) \<noteq> PNone"
      if c: "dict_has raw k' \<or> get_default e \<noteq> PNone \<or> required_truthy e"
    proof (cases "map_of raw k'")
      case None
      show ?thesis
      proof (cases "get_default e = PNone")
        case True
        then have "required_truthy e" using c None by (simp add: dict_has_def)
        then have "raises_missing raw k' (Some e)"
          using True None by (simp add: raises_missing_def required_truthy_def dict_get_def)
        then show ?thesis using no_raise \<open>(k', val) \<in> set F\<close> Some by blast
      next
        case False
        then show ?thesis using None by (simp add: dict_get_def)
      qed
    next
      case (Some v)
      then show ?thesis using raw_val by (simp add: dict_get_def)
    qed
    then show ?thesis using Some by (auto simp: code_included_def)
  qed
  have "dict_has (items d) k = (\<exists>val. (k, val) \<in> set F \<and> code_included raw k val)"
    using convert_loop_keys [OF loop, of k] by (simp add: dict_has_def)
  also have "\<dots> = (\<exists>val'. (k, val') \<in> set F \<and>
      (dict_has raw k \<or> (case val' of None \<Rightarrow> False
                           | Some e \<Rightarrow> get_default e \<noteq> PNone \<or> required_truthy e)))"
    using incl by blast
  also have "\<dots> = spec_included S raw k"
  proof
    assume "\<exists>val'. (k, val') \<in> set F \<and>
      (dict_has raw k \<or> (case val' of None \<Rightarrow> False
                           | Some e \<Rightarrow> get_default e \<noteq> PNone \<or> required_truthy e))"
    then obtain val' where a: "(k, val') \<in> set F"
      "dict_has raw k \<or> (case val' of None \<Rightarrow> False
                           | Some e \<Rightarrow> get_default e \<noteq> PNone \<or> required_truthy e)"
      by blast
    obtain v where v: "(k, v) \<in> set S" "fix_entry k v = Inr val'"
      using fix_id_keys_set [OF F, of k val'] a(1) by auto
    have "dict_has raw k \<or> (case v of None \<Rightarrow> False
                           | Some e \<Rightarrow> get_default e \<noteq> PNone \<or> required_truthy e)"
    proof (cases val')
      case None
      then show ?thesis using a(2) by simp
    next
      case (Some e')
      obtain e where "v = Some e" "e_required e' = e_required e" "e_default e' = e_default e"
        using fix_entry_props(2) [OF v(2) Some] by blast
      then show ?thesis
        using a(2) Some get_default_cong [of e' e] required_truthy_cong [of e' e] by auto
    qed
    then show "spec_included S raw k" using v(1) by (auto simp: spec_included_def)
  next
    assume "spec_included S raw k"
    then obtain v where v: "(k, v) \<in> set S"
      "dict_has raw k \<or> (case v of None \<Rightarrow> False
                           | Some e \<Rightarrow> get_default e \<noteq> PNone \<or> required_truthy e)"
      by (auto simp: spec_included_def)
    obtain v' where v': "fix_entry k v = Inr v'" "(k, v') \<in> set F"
      using fix_id_keys_total [OF F v(1)] by blast
    have "dict_has raw k \<or> (case v' of None \<Rightarrow> False
                           | Some e \<Rightarrow> get_default e \<noteq> PNone \<or> required_truthy e)"
    proof (cases v)
      case None
      then show ?thesis using v(2) by simp
    next
      case (Some e)
      obtain e' where "v' = Some e'" "e_required e' = e_required e" "e_default e' = e_default e"
        using fix_entry_props(3) [OF v'(1) Some] by blast
      then show ?thesis
        using v(2) Some get_default_cong [of e' e] required_truthy_cong [of e' e] by auto
    qed
    then show "\<exists>val'. (k, val') \<in> set F \<and>
      (dict_has raw k \<or> (case val' of None \<Rightarrow> False
                           | Some e \<Rightarrow> get_default e \<noteq> PNone \<or> required_truthy e))"
      using v'(2) by blast
  qed
  finally show ?thesis .
qed

text \<open>
  \<^bold>\<open>C2\<close> (as the code has it). For every schema that \<^verbatim>\<open>fix_id_keys\<close> accepts and every raw
  mapping, \<open>F\<close> being the schema with its enumerations fleshed out:
  \<^item> for a non-empty raw mapping and a schema whose \<^verbatim>\<open>required\<close> options are all true,
    construction raises \<^verbatim>\<open>Required field k missing\<close> exactly when \<^verbatim>\<open>k\<close> is the first field, in
    the order of the schema, at which \<^verbatim>\<open>convert_dict\<close> raises, \<^verbatim>\<open>k\<close> is marked required and
    \<^verbatim>\<open>raw.get(k, default)\<close> is \<^verbatim>\<open>None\<close>;
  \<^item> for a non-empty raw mapping, construction succeeds exactly when no field raises;
  \<^item> for a non-empty raw mapping, a schema whose \<^verbatim>\<open>required\<close> options are all true, and no
    conversion raising on a field that \<^verbatim>\<open>convert_dict\<close> converts, construction raises a
    missing-required-field error exactly when some field marked required resolves to
    \<^verbatim>\<open>None\<close>; when the raw mapping holds no \<^verbatim>\<open>None\<close>, that is exactly when the raw mapping
    does not supply the field and the field has no non-null default;
  \<^item> a missing-required-field error for \<^verbatim>\<open>k\<close> is raised only if \<^verbatim>\<open>k\<close> is marked required and
    resolves to \<^verbatim>\<open>None\<close> (schema with true \<^verbatim>\<open>required\<close> options);
  \<^item> for a non-empty raw mapping, a field marked required that resolves to \<^verbatim>\<open>None\<close> makes
    construction fail, whatever the schema;
  \<^item> for a non-empty raw mapping without \<^verbatim>\<open>None\<close> values, a construction that succeeds
    includes a field iff the raw input supplies it, or it has a non-null default, or it is
    required;
  \<^item> for the empty raw mapping construction succeeds with the empty identifier, whatever the
    schema requires.
\<close>

theorem dataid_construction:
  "(\<forall>F k. fix_id_keys S = Inr F \<and> raw \<noteq> [] \<and> required_flags_true S \<longrightarrow>
        (dataid_init (Some S) raw = Inl (missing_required k))
        = (\<exists>e. first_raising F raw = Some (k, Some e) \<and> required_truthy e
               \<and> dict_get raw k (get_default e) = PNone))
   \<and> (\<forall>F. fix_id_keys S = Inr F \<and> raw \<noteq> [] \<longrightarrow>
        (\<exists>d. dataid_init (Some S) raw = Inr d) = (first_raising F raw = None))
   \<and> (\<forall>F. fix_id_keys S = Inr F \<and> raw \<noteq> [] \<and> required_flags_true S
            \<and> no_conversion_raises F raw \<longrightarrow>
        (\<exists>k. dataid_init (Some S) raw = Inl (missing_required k))
        = (\<exists>k e. (k, Some e) \<in> set S \<and> required_truthy e
                 \<and> dict_get raw k (get_default e) = PNone)
        \<and> ((\<forall>(k, v) \<in> set raw. v \<noteq> PNone) \<longrightarrow>
             (\<exists>k. dataid_init (Some S) raw = Inl (missing_required k))
             = spec_missing_required S raw))
   \<and> (\<forall>k. required_flags_true S \<and> dataid_init (Some S) raw = Inl (missing_required k) \<longrightarrow>
        (\<exists>e. (k, Some e) \<in> set S \<and> required_truthy e
              \<and> dict_get raw k (get_default e) = PNone))
   \<and> (raw \<noteq> [] \<and> (\<exists>k e. (k, Some e) \<in> set S \<and> required_truthy e
                         \<and> dict_get raw k (get_default e) = PNone) \<longrightarrow>
        (\<exists>err. dataid_init (Some S) raw = Inl err))
   \<and> (\<forall>d. raw \<noteq> [] \<and> (\<forall>(k, v) \<in> set raw. v \<noteq> PNone) \<and> dataid_init (Some S) raw = Inr d \<longrightarrow>
        (\<forall>k. dict_has (items d) k = spec_included S raw k))
   \<and> (\<forall>F. fix_id_keys S = Inr F \<longrightarrow>
        dataid_init (Some S) [] =
          Inr \<lparr>hash_cache = None, orig_id_keys = Some S, id_keys = F, items = []\<rparr>)"
proof -
  have a: "\<forall>F k. fix_id_keys S = Inr F \<and> raw \<noteq> [] \<and> required_flags_true S \<longrightarrow>
        (dataid_init (Some S) raw = Inl (missing_required k))
        = (\<exists>e. first_raising F raw = Some (k, Some e) \<and> required_truthy e
               \<and> dict_get raw k (get_default e) = PNone)"
    using init_missing_iff by blast
  have b: "\<forall>F. fix_id_keys S = Inr F \<and> raw \<noteq> [] \<longrightarrow>
        (\<exists>d. dataid_init (Some S) raw = Inr d) = (first_raising F raw = None)"
    using init_ok_iff by blast
  have c: "\<forall>F. fix_id_keys S = Inr F \<and> raw \<noteq> [] \<and> required_flags_true S
            \<and> no_conversion_raises F raw \<longrightarrow>
        (\<exists>k. dataid_init (Some S) raw = Inl (missing_required k))
        = (\<exists>k e. (k, Some e) \<in> set S \<and> required_truthy e
                 \<and> dict_get raw k (get_default e) = PNone)
        \<and> ((\<forall>(k, v) \<in> set raw. v \<noteq> PNone) \<longrightarrow>
             (\<exists>k. dataid_init (Some S) raw = Inl (missing_required k))
             = spec_missing_required S raw)"
    using init_missing_exactly spec_missing_resolves by simp
  have d: "\<forall>k. required_flags_true S \<and> dataid_init (Some S) raw = Inl (missing_required k) \<longrightarrow>
        (\<exists>e. (k, Some e) \<in> set S \<and> required_truthy e
              \<and> dict_get raw k (get_default e) = PNone)"
    using init_missing_sound_flag by blast
  have e: "raw \<noteq> [] \<and> (\<exists>k e. (k, Some e) \<in> set S \<and> required_truthy e
                         \<and> dict_get raw k (get_default e) = PNone) \<longrightarrow>
        (\<exists>err. dataid_init (Some S) raw = Inl err)"
    using init_missing_fails by blast
  have f: "\<forall>d. raw \<noteq> [] \<and> (\<forall>(k, v) \<in> set raw. v \<noteq> PNone) \<and> dataid_init (Some S) raw = Inr d \<longrightarrow>
        (\<forall>k. dict_has (items d) k = spec_included S raw k)"
    using init_included by blast
  have g: "\<forall>F. fix_id_keys S = Inr F \<longrightarrow>
        dataid_init (Some S) [] =
          Inr \<lparr>hash_cache = None, orig_id_keys = Some S, id_keys = F, items = []\<rparr>"
    by (simp add: dataid_init_def)
  show ?thesis by (intro conjI a b c d e f g)
qed

lemmas init_eval =
  dataid_init_def fix_entry_def entry_falsy_def value_list_class_def is_sep_def
  convert_dict_def dict_has_def dict_get_def get_default_def required_truthy_def
  value_list_convert_def member_lookup_def modifier_convert_def wavelength_convert_def
  sequence_items_def missing_required_def Let_def plain_entry_def required_entry_def
  calibrations_def

text \<open>The example identifiers are what \<^verbatim>\<open>DataID.__init__\<close> builds.\<close>

lemma schema0_fixed: "fix_id_keys schema0 = Inr schema0_fixed"
  by (simp add: schema0_def schema0_fixed_def init_eval)

lemma id1_built: "dataid_init (Some schema0) raw1 = Inr id1"
  by (simp add: schema0_def schema0_fixed_def raw1_def id1_def init_eval)

lemma candidates_built:
  "dataid_init (Some schema2) (items id_a) = Inr id_a"
  "dataid_init (Some schema2) (items id_b) = Inr id_b"
  "dataid_init (Some schema2) (items id_c) = Inr id_c"
  "dataid_init (Some schema2) (items id_d) = Inr id_d"
  "dataid_init (Some schema2) (items id_e) = Inr id_e"
  by (simp_all add: id_a_def id_b_def id_c_def id_d_def id_e_def make_id_def schema2_def init_eval)

lemmas field_eval =
  first_raising_def field_raises_def raises_missing_def conversion_raises_def
  no_conversion_raises_def required_flags_true_def

lemma schema3_fixed: "fix_id_keys schema3 = Inr schema3_fixed"
  by (simp add: schema3_def schema3_fixed_def init_eval)

text \<open>A field marked \<^verbatim>\<open>required: False\<close> passes the test \<^verbatim>\<open>'required' in val\<close>: given
  \<^verbatim>\<open>None\<close> it raises the missing-field error.\<close>

lemma required_false_raises:
  "dataid_init (Some schema4) [(''name'', PStr ''a''), (''x'', PNone)]
   = Inl (missing_required ''x'')"
  by (simp add: schema4_def init_eval)

theorem dataid_construction_witness:
  "dataid_init (Some schema0) [(''resolution'', PInt 500)] = Inl (missing_required ''name'')
   \<and> (\<exists>d. dataid_init (Some schema0) [(''name'', PStr ''ch1''), (''calibration'', PStr ''counts'')]
             = Inr d
          \<and> dict_has (items d) ''name'' \<and> dict_has (items d) ''calibration''
          \<and> dict_has (items d) ''modifiers'' \<and> \<not> dict_has (items d) ''wavelength''
          \<and> \<not> dict_has (items d) ''resolution'')
   \<and> spec_missing_required schema0 [(''resolution'', PInt 500)]
   \<and> (\<exists>k. dataid_init (Some schema0) [(''resolution'', PInt 500)] = Inl (missing_required k))
   \<and> (\<exists>e. (''name'', Some e) \<in> set schema0 \<and> required_truthy e)
   \<and> (\<exists>err. dataid_init (Some schema1) [(''level'', PInt 1)] = Inl err)
   \<and> dataid_init (Some schema3) [(''calibration'', PStr ''bogus'')]
       \<noteq> Inl (missing_required ''name'')
   \<and> (\<exists>d. dataid_init (Some schema0) [] = Inr d \<and> items d = [])"
proof -
  let ?r0 = "[(''resolution'', PInt 500)]"
  let ?r1 = "[(''name'', PStr ''ch1''), (''calibration'', PStr ''counts'')]"
  let ?r3 = "[(''calibration'', PStr ''bogus'')]"
  note t0 = dataid_construction [of schema0 ?r0]
  note t1 = dataid_construction [of schema0 ?r1]
  note t3 = dataid_construction [of schema3 ?r3]
  have fl0: "required_flags_true schema0"
    by (simp add: schema0_def field_eval init_eval)
  have fl3: "required_flags_true schema3"
    by (simp add: schema3_def field_eval init_eval)
  have fr0: "first_raising schema0_fixed ?r0 = Some (''name'', Some required_entry)"
    by (simp add: schema0_fixed_def field_eval init_eval)
  have fr1: "first_raising schema0_fixed ?r1 = None"
    by (simp add: schema0_fixed_def field_eval init_eval)
  have fr3: "first_raising schema3_fixed ?r3
               = Some (''calibration'',
                    Some (plain_entry\<lparr>e_type := Some (TEnum ''calibration'' calibrations)\<rparr>))"
    by (simp add: schema3_fixed_def field_eval init_eval)
  have nc0: "no_conversion_raises schema0_fixed ?r0"
    by (simp add: schema0_fixed_def field_eval init_eval)
  have rq: "required_truthy required_entry
            \<and> dict_get ?r0 ''name'' (get_default required_entry) = PNone"
    by (simp add: init_eval)
  have nn0: "\<forall>(k, v) \<in> set ?r0. v \<noteq> PNone" by simp
  have nn1: "\<forall>(k, v) \<in> set ?r1. v \<noteq> PNone" by simp
  have w1: "dataid_init (Some schema0) ?r0 = Inl (missing_required ''name'')"
    using t0 [THEN conjunct1, rule_format, of schema0_fixed "''name''"] schema0_fixed fl0 fr0 rq
    by simp
  have ok1: "\<exists>d. dataid_init (Some schema0) ?r1 = Inr d"
    using t1 [THEN conjunct2, THEN conjunct1, rule_format, of schema0_fixed] schema0_fixed fr1
    by simp
  then obtain d where d: "dataid_init (Some schema0) ?r1 = Inr d" by blast
  have inc: "dict_has (items d) k = spec_included schema0 ?r1 k" for k
    using t1 [THEN conjunct2, THEN conjunct2, THEN conjunct2, THEN conjunct2, THEN conjunct2,
        THEN conjunct1, rule_format, of d k] d nn1
    by simp
  have w2: "\<exists>d. dataid_init (Some schema0) ?r1 = Inr d
          \<and> dict_has (items d) ''name'' \<and> dict_has (items d) ''calibration''
          \<and> dict_has (items d) ''modifiers'' \<and> \<not> dict_has (items d) ''wavelength''
          \<and> \<not> dict_has (items d) ''resolution''"
  proof -
    have "dict_has (items d) ''name'' \<and> dict_has (items d) ''calibration''
          \<and> dict_has (items d) ''modifiers'' \<and> \<not> dict_has (items d) ''wavelength''
          \<and> \<not> dict_has (items d) ''resolution''"
      unfolding inc by (auto simp: spec_included_def schema0_def init_eval)
    then show ?thesis using d by blast
  qed
  note c0 = t0 [THEN conjunct2, THEN conjunct2, THEN conjunct1, rule_format, of schema0_fixed]
  have pre0: "fix_id_keys schema0 = Inr schema0_fixed \<and> ?r0 \<noteq> [] \<and> required_flags_true schema0
              \<and> no_conversion_raises schema0_fixed ?r0"
    using schema0_fixed fl0 nc0 by simp
  have w3: "(\<exists>k. dataid_init (Some schema0) ?r0 = Inl (missing_required k))
            = spec_missing_required schema0 ?r0"
    using c0 [OF pre0, THEN conjunct2] nn0 by blast
  have w4: "\<exists>k. dataid_init (Some schema0) ?r0 = Inl (missing_required k)"
    using w1 by blast
  have w3': "spec_missing_required schema0 ?r0" using w3 w4 by blast
  have w5: "\<exists>e. (''name'', Some e) \<in> set schema0 \<and> required_truthy e"
    using t0 [THEN conjunct2, THEN conjunct2, THEN conjunct2, THEN conjunct1, rule_format,
        of "''name''"] fl0 w1
    by blast
  have "(''name'', Some required_entry) \<in> set schema1 \<and> required_truthy required_entry
      \<and> dict_get [(''level'', PInt 1)] ''name'' (get_default required_entry) = PNone"
    by (simp add: schema1_def init_eval)
  then have w6: "\<exists>err. dataid_init (Some schema1) [(''level'', PInt 1)] = Inl err"
    using dataid_construction [of schema1 "[(''level'', PInt 1)]", THEN conjunct2,
        THEN conjunct2, THEN conjunct2, THEN conjunct2, THEN conjunct1]
    by blast
  have w7: "dataid_init (Some schema3) ?r3 \<noteq> Inl (missing_required ''name'')"
    using t3 [THEN conjunct1, rule_format, of schema3_fixed "''name''"] schema3_fixed fl3 fr3
    by simp
  obtain F where F: "fix_id_keys schema0 = Inr F"
    using schema0_fixed by blast
  have w8: "\<exists>d. dataid_init (Some schema0) [] = Inr d \<and> items d = []"
    using dataid_construction [of schema0 "[]", THEN conjunct2, THEN conjunct2, THEN conjunct2,
        THEN conjunct2, THEN conjunct2, THEN conjunct2] F
    by auto
  show ?thesis by (intro conjI w1 w2 w3' w4 w5 w6 w7 w8)
qed

text \<open>With no keyword argument nothing is checked: a schema with a required field and the
  empty raw mapping give the empty identifier, not an error.\<close>

theorem dataid_construction_empty_counterexample:
  "spec_missing_required schema1 []
   \<and> (\<exists>d. dataid_init (Some schema1) [] = Inr d \<and> items d = [])"
proof -
  have "(''name'', Some required_entry) \<in> set schema1 \<and> required_truthy required_entry
      \<and> \<not> dict_has [] ''name'' \<and> get_default required_entry = PNone"
    by (simp add: schema1_def init_eval)
  then have "spec_missing_required schema1 []"
    unfolding spec_missing_required_def by blast
  moreover have "\<exists>d. dataid_init (Some schema1) [] = Inr d \<and> items d = []"
    by (simp add: init_eval schema1_def)
  ultimately show ?thesis by blast
qed

subsection \<open>Pickling\<close>

text \<open>
  \<^bold>\<open>C4.\<close> The pair of \<^verbatim>\<open>__reduce__\<close> does not always rebuild an equal identifier. An
  explicit \<^verbatim>\<open>None\<close> for an untyped field with a default leaves the field out of the
  identifier; the plain dictionary then lacks the field, and rebuilding from it puts the
  default in.
\<close>

theorem dataid_roundtrip_fails:
  "\<exists>a b. dataid_init (Some schema1) [(''name'', PStr ''a''), (''level'', PNone)] = Inr a
     \<and> items a = [(''name'', PStr ''a'')]
     \<and> reduce a = (Some schema1, [(''name'', PStr ''a'')])
     \<and> unpickle (fst (reduce a)) (snd (reduce a)) = Inr b
     \<and> items b = [(''name'', PStr ''a''), (''level'', PInt 5)]
     \<and> dataid_eq b a = Inr False"
  by (simp add: init_eval schema1_def reduce_def to_dict_def unpickle_def render_value_def
      dataid_eq_def dict_eq_def)

theorem dataid_roundtrip_fails_witness:
  "\<exists>a b. dataid_init (Some schema1) [(''name'', PStr ''a''), (''level'', PNone)] = Inr a
     \<and> unpickle (fst (reduce a)) (snd (reduce a)) = Inr b
     \<and> dataid_eq b a \<noteq> Inr True"
  using dataid_roundtrip_fails by auto

section \<open>Properties of DataQuery\<close>

subsection \<open>Equality\<close>

lemma query_eq_loop_iff:
  assumes "\<forall>(k, qv) \<in> set q. \<forall>ov. map_of odict k = Some ov \<longrightarrow> (\<exists>t. py_ne ov qv = Inr t)"
  shows "query_eq_loop q odict c =
     Inr ((c \<or> (\<exists>k \<in> set (map fst q). dict_has odict k)) \<and>
          (\<forall>(k, qv) \<in> set q. \<forall>ov. map_of odict k = Some ov \<longrightarrow> code_compatible qv ov))"
  using assms
proof (induction q arbitrary: c)
  case Nil
  then show ?case by simp
next
  case (Cons p q)
  obtain k qv where p: "p = (k, qv)" by (cases p)
  show ?case
  proof (cases "map_of odict k")
    case None
    then show ?thesis using Cons p by (auto simp: dict_has_def)
  next
    case (Some ov)
    then obtain t where t: "py_ne ov qv = Inr t" using Cons.prems p by auto
    have ih: "query_eq_loop q odict True =
        Inr ((\<forall>(k, qv) \<in> set q. \<forall>ov. map_of odict k = Some ov \<longrightarrow> code_compatible qv ov))"
      using Cons.IH [of True] Cons.prems by simp
    show ?thesis using Some t p ih
      by (auto simp: dict_has_def code_compatible_def)
  qed
qed

text \<open>An object without \<^verbatim>\<open>_asdict\<close> (the \<^verbatim>\<open>AttributeError\<close> branch) is never equal to a
  query.\<close>

lemma dataquery_eq_no_asdict:
  "other_asdict other = None \<Longrightarrow> dataquery_eq q other = Inr False"
  by (simp add: dataquery_eq_def)

text \<open>
  \<^bold>\<open>C5\<close> (as the code has it). When no comparison of a shared field raises, \<^verbatim>\<open>q == o\<close> holds
  iff \<^verbatim>\<open>q\<close> and \<^verbatim>\<open>o\<close> share a field and, on every shared field, the value of \<^verbatim>\<open>q\<close> is \<^verbatim>\<open>None\<close>
  or \<^verbatim>\<open>o[key] != q[key]\<close> is false. The wildcard has no role of its own in \<^verbatim>\<open>__eq__\<close>: it is
  compared like any other string.
\<close>

theorem dataquery_eq_iff:
  assumes "other_asdict other = Some odict"
    and "\<forall>(k, qv) \<in> set q. \<forall>ov. map_of odict k = Some ov \<longrightarrow> (\<exists>t. py_ne ov qv = Inr t)"
  shows "dataquery_eq q other =
     Inr ((\<exists>k \<in> set (map fst q). dict_has odict k) \<and>
          (\<forall>(k, qv) \<in> set q. \<forall>ov. map_of odict k = Some ov \<longrightarrow> qv = PNone \<or> py_ne ov qv = Inr False))"
  using assms query_eq_loop_iff [of q odict False]
  by (simp add: dataquery_eq_def code_compatible_def)

theorem dataquery_eq_iff_witness:
  "dataquery_eq [(''name'', PStr ''a''), (''resolution'', PNone), (''level'', PInt 1)]
       (OtherQuery [(''name'', PStr ''a''), (''resolution'', PInt 500)]) = Inr True
   \<and> dataquery_eq [(''name'', PStr ''*'')] (OtherQuery [(''name'', PStr ''*'')]) = Inr True
   \<and> dataquery_eq [(''name'', PStr ''a'')] (OtherQuery [(''level'', PInt 1)]) = Inr False"
proof -
  have a: "other_asdict (OtherQuery d) = Some d" for d by simp
  have n: "py_ne (PStr s) (PStr t) = Inr (s \<noteq> t)" for s t
    by (simp add: py_ne_def py_cmp.simps)
  have m: "py_ne (PInt 500) PNone = Inr True"
    by (simp add: py_ne_def py_cmp.simps)
  show ?thesis
    using dataquery_eq_iff [OF a, of "[(''name'', PStr ''a''), (''resolution'', PNone), (''level'', PInt 1)]"
        "[(''name'', PStr ''a''), (''resolution'', PInt 500)]"]
      dataquery_eq_iff [OF a, of "[(''name'', PStr ''*'')]" "[(''name'', PStr ''*'')]"]
      dataquery_eq_iff [OF a, of "[(''name'', PStr ''a'')]" "[(''level'', PInt 1)]"]
    by (auto simp: n m dict_has_def)
qed

text \<open>A wildcard in the query does not match a concrete value of the other side: the two
  share \<^verbatim>\<open>name\<close> and the specification calls the values compatible, but \<^verbatim>\<open>__eq__\<close> is False.\<close>

theorem dataquery_eq_wildcard_counterexample:
  "spec_query_eq [(''name'', PStr ''*'')] [(''name'', PStr ''abc'')]
   \<and> dataquery_eq [(''name'', PStr ''*'')] (OtherQuery [(''name'', PStr ''abc'')]) = Inr False"
  by (simp add: spec_query_eq_def spec_compatible_def is_wildcard_def dict_has_def
      dataquery_eq_def py_ne_def py_cmp.simps)

subsection \<open>Ranking: unconstrained fields\<close>

lemma contribution_spec: "unconstrained_contribution v = spec_contribution v"
  by (cases v) (simp_all add: unconstrained_contribution_def)

lemma unspecified_is_wildcard:
  "map_of q key = None \<or> map_of q key = Some (PStr ''*'') \<Longrightarrow> is_wildcard (dict_get q key (PStr ''*''))"
  by (auto simp: is_wildcard_def dict_get_def py_cmp.simps)

lemma key_step_unconstrained:
  assumes "map_of q key = None \<or> map_of q key = Some (PStr ''*'')"
  shows "key_step q d key acc =
     Inr (Continue (dist_add acc (Fin (spec_contribution (dict_get (items d) key PNone)))))"
  using unspecified_is_wildcard [OF assms]
  by (simp add: key_step_def Let_def contribution_spec)

lemma dist_add_assoc_fin: "dist_add (dist_add a (Fin x)) (Fin y) = dist_add a (Fin (x + y))"
  by (cases a) simp_all

lemma distance_loop_unconstrained:
  assumes "\<forall>key \<in> set ks. map_of q key = None \<or> map_of q key = Some (PStr ''*'')"
  shows "distance_loop q d ks acc =
     Inr (dist_add acc (Fin (\<Sum>key \<leftarrow> ks. spec_contribution (dict_get (items d) key PNone))))"
  using assms
proof (induction ks arbitrary: acc)
  case Nil
  then show ?case by (cases acc) simp_all
next
  case (Cons key ks)
  have s: "key_step q d key acc =
     Inr (Continue (dist_add acc (Fin (spec_contribution (dict_get (items d) key PNone)))))"
    using Cons.prems by (simp add: key_step_unconstrained)
  show ?case using Cons s by (simp add: dist_add_assoc_fin)
qed

text \<open>
  \<^bold>\<open>C6.\<close> For a field that the query leaves out or sets to the wildcard, the round of the
  loop for that field adds to the accumulated distance the candidate's enumeration ordinal,
  its numeric value, or the length of its tuple, and nothing for any other value (a missing
  field included), and the loop goes on. For a query that constrains none of the iterated
  fields the distance of a candidate is the sum of these contributions.
\<close>

theorem unconstrained_field_contribution:
  "(map_of q key = None \<or> map_of q key = Some (PStr ''*'') \<longrightarrow>
      key_step q d key acc =
        Inr (Continue (dist_add acc (Fin (spec_contribution (dict_get (items d) key PNone))))))
   \<and> ((\<forall>key \<in> set ks. map_of q key = None \<or> map_of q key = Some (PStr ''*'')) \<longrightarrow>
      distance_loop q d ks (Fin 0) =
        Inr (Fin (\<Sum>key \<leftarrow> ks. spec_contribution (dict_get (items d) key PNone))))"
  using key_step_unconstrained [of q key d acc] distance_loop_unconstrained [of ks q d "Fin 0"]
  by simp

theorem unconstrained_field_contribution_witness:
  "key_step [(''calibration'', PStr ''*'')] id1 ''calibration'' (Fin 1) = Inr (Continue (Fin 5))
   \<and> key_step [] id1 ''resolution'' (Fin 1) = Inr (Continue (Fin 501))
   \<and> key_step [] id1 ''modifiers'' (Fin 1) = Inr (Continue (Fin 3))
   \<and> key_step [] id1 ''wavelength'' (Fin 1) = Inr (Continue (Fin 5))
   \<and> key_step [] id1 ''name'' (Fin 1) = Inr (Continue (Fin 1))
   \<and> key_step [] id1 ''absent'' Infty = Inr (Continue Infty)
   \<and> distance_loop [(''calibration'', PStr ''*'')] id1
        [''wavelength'', ''name'', ''calibration'', ''resolution'', ''modifiers''] (Fin 0)
      = Inr (Fin 510)"
  using unconstrained_field_contribution [of "[(''calibration'', PStr ''*'')]" "''calibration''" id1 "Fin 1" "[]"]
    unconstrained_field_contribution [of "[]" "''resolution''" id1 "Fin 1" "[]"]
    unconstrained_field_contribution [of "[]" "''modifiers''" id1 "Fin 1" "[]"]
    unconstrained_field_contribution [of "[]" "''wavelength''" id1 "Fin 1" "[]"]
    unconstrained_field_contribution [of "[]" "''name''" id1 "Fin 1" "[]"]
    unconstrained_field_contribution [of "[]" "''absent''" id1 "Infty" "[]"]
    unconstrained_field_contribution [of "[(''calibration'', PStr ''*'')]" "''x''" id1 "Fin 0"
       "[''wavelength'', ''name'', ''calibration'', ''resolution'', ''modifiers'']"]
  by (simp add: id1_def dict_get_def)

subsection \<open>Ranking: constrained fields and the returned order\<close>

lemma dist_le_refl [simp]: "dist_le a a"
  by (cases a) (simp_all add: dist_le_def)

lemma dist_le_trans: "dist_le a b \<Longrightarrow> dist_le b c \<Longrightarrow> dist_le a c"
  by (cases a; cases b; cases c) (simp_all add: dist_le_def)

lemma dist_le_Infty [simp]: "dist_le a Infty"
  by (cases a) (simp_all add: dist_le_def)

lemma dist_le_add: "0 \<le> x \<Longrightarrow> dist_le a (dist_add a (Fin x))"
  by (cases a) (simp_all add: dist_le_def)

lemma dist_le_add_dist: "dist_le (Fin 0) b \<Longrightarrow> dist_le a (dist_add a b)"
  by (cases a; cases b) (simp_all add: dist_le_def)

lemma dist_le_big: "dist_le (Fin 0) a \<Longrightarrow> dist_le (Fin big_distance) (dist_add a (Fin big_distance))"
  by (cases a) (simp_all add: dist_le_def)

lemma wl_distance_nonneg: "wl_distance mn c mx u v = Inr dd \<Longrightarrow> dist_le (Fin 0) dd"
  by (auto simp: wl_distance_def py_abs_diff_def dist_le_def
      split: sum.splits if_splits pyval.splits option.splits)

lemma contribution_nonneg:
  assumes "nonneg_values d"
  shows "0 \<le> unconstrained_contribution (dict_get (items d) key PNone)"
proof (cases "map_of (items d) key")
  case None
  then show ?thesis by (simp add: dict_get_def unconstrained_contribution_def)
next
  case (Some v)
  then have "(key, v) \<in> set (items d)" by (rule map_of_SomeD)
  then have "\<And>x. num_of v = Some x \<Longrightarrow> 0 \<le> x"
    using assms by (auto simp: nonneg_values_def)
  then show ?thesis using Some
    by (cases v) (auto simp: dict_get_def unconstrained_contribution_def)
qed

lemma key_step_lacks:
  "lacks_field q d key \<Longrightarrow> key_step q d key acc = Inr (Break (dist_add acc (Fin big_distance)))"
  by (simp add: lacks_field_def constrained_def key_step_def Let_def)

lemma key_step_fails:
  "fails_check q d key \<Longrightarrow> key_step q d key acc = Inr (Break Infty)"
  by (auto simp: fails_check_def constrained_def key_step_def Let_def
      split: option.splits pyval.splits)

lemma key_step_cases:
  assumes "key_step q d key acc = Inr s" "nonneg_values d"
  shows "(lacks_field q d key \<and> s = Break (dist_add acc (Fin big_distance)))
       \<or> (fails_check q d key \<and> s = Break Infty)
       \<or> (\<not> lacks_field q d key \<and> \<not> fails_check q d key \<and>
           (\<exists>a'. s = Continue a' \<and> dist_le acc a'))"
proof (cases "is_wildcard (dict_get q key (PStr ''*''))")
  case True
  then have "s = Continue (dist_add acc (Fin (unconstrained_contribution (dict_get (items d) key PNone))))"
    using assms(1) by (simp add: key_step_def Let_def)
  moreover have "\<not> lacks_field q d key" "\<not> fails_check q d key"
    using True by (simp_all add: lacks_field_def fails_check_def constrained_def)
  ultimately show ?thesis
    using contribution_nonneg [OF assms(2), of key] dist_le_add by auto
next
  case False
  then have c: "constrained q key" by (simp add: constrained_def)
  show ?thesis
  proof (cases "map_of (items d) key")
    case None
    then have "lacks_field q d key" using c by (simp add: lacks_field_def)
    then show ?thesis using key_step_lacks [of q d key acc] assms(1) by simp
  next
    case (Some v)
    then have nl: "\<not> lacks_field q d key" by (simp add: lacks_field_def)
    have mem: "(key, v) \<in> set (items d)" using Some by (rule map_of_SomeD)
    show ?thesis
    proof (cases "fails_check q d key")
      case True
      then show ?thesis using key_step_fails [of q d key acc] assms(1) by simp
    next
      case nf: False
      have nn: "\<And>x. num_of v = Some x \<Longrightarrow> 0 \<le> x"
        using assms(2) mem by (auto simp: nonneg_values_def)
      have "\<exists>a'. s = Continue a' \<and> dist_le acc a'"
      proof (cases "\<exists>mn c mx u. v = PWl mn c mx u")
        case True
        then obtain mn c0 mx u where v: "v = PWl mn c0 mx u" by blast
        obtain dd where dd: "wl_distance mn c0 mx u (dict_get q key (PStr ''*'')) = Inr dd"
          "s = Continue (dist_add acc dd)"
          using assms(1) False Some v by (auto simp: key_step_def Let_def split: sum.splits)
        show ?thesis using dd(2) dist_le_add_dist [OF wl_distance_nonneg [OF dd(1)]] by auto
      next
        case nw: False
        obtain found where f: "list_contains (allowed_values (dict_get q key (PStr ''*''))) v = Inr found"
          using assms(1) False Some nw
          by (cases v) (auto simp: key_step_def Let_def split: sum.splits)
        have "found" using nf c Some nw f by (cases v) (auto simp: fails_check_def)
        then have "s = (case num_of v of Some x \<Rightarrow> Continue (dist_add acc (Fin x))
                        | None \<Rightarrow> Continue acc)"
          using assms(1) False Some nw f
          by (cases v) (auto simp: key_step_def Let_def split: option.splits)
        then show ?thesis using nn dist_le_add by (auto split: option.splits)
      qed
      then show ?thesis using nl nf by blast
    qed
  qed
qed

lemma distance_loop_mono:
  "nonneg_values d \<Longrightarrow> distance_loop q d ks acc = Inr r \<Longrightarrow> dist_le acc r"
proof (induction ks arbitrary: acc)
  case Nil
  then show ?case by simp
next
  case (Cons key ks)
  obtain s where s: "key_step q d key acc = Inr s"
    using Cons.prems(2) by (auto split: sum.splits)
  show ?case
  proof (cases s)
    case (Continue a')
    then have "distance_loop q d ks a' = Inr r" using Cons.prems(2) s by simp
    then have "dist_le a' r" using Cons.IH Cons.prems(1) by blast
    moreover have "dist_le acc a'"
      using key_step_cases [OF s Cons.prems(1)] Continue by auto
    ultimately show ?thesis using dist_le_trans by blast
  next
    case (Break b)
    then have "r = b" using Cons.prems(2) s by simp
    then show ?thesis
      using key_step_cases [OF s Cons.prems(1)] Break
      by (cases acc) (auto simp: dist_le_def big_distance_def)
  qed
qed

lemma distance_loop_infeasible:
  "nonneg_values d \<Longrightarrow> spec_infeasible q d ks \<Longrightarrow> distance_loop q d ks acc = Inr r
   \<Longrightarrow> dist_le (Fin 0) acc \<Longrightarrow> dist_le (Fin big_distance) r"
proof (induction ks arbitrary: acc)
  case Nil
  then show ?case by (simp add: spec_infeasible_def)
next
  case (Cons key ks)
  obtain s where s: "key_step q d key acc = Inr s"
    using Cons.prems(3) by (auto split: sum.splits)
  note cases = key_step_cases [OF s Cons.prems(1)]
  show ?case
  proof (cases s)
    case (Continue a')
    then have nl: "\<not> lacks_field q d key" "\<not> fails_check q d key" "dist_le acc a'"
      using cases by auto
    then have inf: "spec_infeasible q d ks"
      using Cons.prems(2) by (auto simp: spec_infeasible_def)
    have "dist_le (Fin 0) a'" using nl(3) Cons.prems(4) dist_le_trans by blast
    moreover have "distance_loop q d ks a' = Inr r" using Cons.prems(3) s Continue by simp
    ultimately show ?thesis using Cons.IH Cons.prems(1) inf by blast
  next
    case (Break b)
    then have "r = b" using Cons.prems(3) s by simp
    then show ?thesis
      using cases Break dist_le_big [OF Cons.prems(4)] by auto
  qed
qed

lemma distance_loop_finite:
  assumes "\<forall>key \<in> set ks. \<not> lacks_field q d key \<and> \<not> fails_check q d key
                          \<and> \<not> wavelength_mismatch q d key"
    and "distance_loop q d ks (Fin a) = Inr r"
  shows "\<exists>x. r = Fin x"
  using assms
proof (induction ks arbitrary: a)
  case Nil
  then show ?case by auto
next
  case (Cons key ks)
  have nl: "\<not> lacks_field q d key" "\<not> fails_check q d key" "\<not> wavelength_mismatch q d key"
    using Cons.prems(1) by simp_all
  obtain s where s: "key_step q d key (Fin a) = Inr s"
    using Cons.prems(2) by (auto split: sum.splits)
  have "\<exists>a'. s = Continue (Fin a')"
  proof (cases "is_wildcard (dict_get q key (PStr ''*''))")
    case True
    then show ?thesis using s by (auto simp: key_step_def Let_def)
  next
    case False
    then have c: "constrained q key" by (simp add: constrained_def)
    then obtain v where v: "map_of (items d) key = Some v"
      using nl(1) by (auto simp: lacks_field_def)
    show ?thesis
    proof (cases "\<exists>mn c mx u. v = PWl mn c mx u")
      case True
      then obtain mn c0 mx u where w: "v = PWl mn c0 mx u" by blast
      obtain dd where dd: "wl_distance mn c0 mx u (dict_get q key (PStr ''*'')) = Inr dd"
        "s = Continue (dist_add (Fin a) dd)"
        using s False v w by (auto simp: key_step_def Let_def split: sum.splits)
      have "dd \<noteq> Infty" using nl(3) c v w dd(1) by (auto simp: wavelength_mismatch_def)
      then show ?thesis using dd(2) by (cases dd) auto
    next
      case nw: False
      obtain found where f: "list_contains (allowed_values (dict_get q key (PStr ''*''))) v = Inr found"
        using s False v nw by (cases v) (auto simp: key_step_def Let_def split: sum.splits)
      have "found" using nl(2) c v nw f by (cases v) (auto simp: fails_check_def)
      then have "s = (case num_of v of Some x \<Rightarrow> Continue (dist_add (Fin a) (Fin x))
                        | None \<Rightarrow> Continue (Fin a))"
        using s False v nw f
        by (cases v) (auto simp: key_step_def Let_def split: option.splits)
      then show ?thesis by (auto split: option.splits)
    qed
  qed
  then obtain a' where "s = Continue (Fin a')" by blast
  then have "distance_loop q d ks (Fin a') = Inr r" using Cons.prems(2) s by simp
  then show ?case using Cons.IH Cons.prems(1) by auto
qed

lemma insert_by_mset:
  "insert_by lt x ys = Inr zs \<Longrightarrow> mset zs = add_mset x (mset ys)"
  by (induction ys arbitrary: zs) (auto split: sum.splits if_splits)

lemma sorted_onto_mset:
  "sorted_onto lt xs acc = Inr zs \<Longrightarrow> mset zs = mset xs + mset acc"
proof (induction xs arbitrary: acc)
  case Nil
  then show ?case by simp
next
  case (Cons x xs)
  then obtain acc' where a: "insert_by lt x acc = Inr acc'" "sorted_onto lt xs acc' = Inr zs"
    by (auto split: sum.splits)
  show ?case using Cons.IH [OF a(2)] insert_by_mset [OF a(1)] by simp
qed

lemma py_sorted_mset: "py_sorted lt xs = Inr zs \<Longrightarrow> mset zs = mset xs"
  using sorted_onto_mset [of lt xs "[]" zs] by (simp add: py_sorted_def)

lemma pair_lt_true: "pair_lt p q = Inr True \<Longrightarrow> by_distance p q"
  by (cases "fst p"; cases "fst q")
     (auto simp: pair_lt_def by_distance_def dist_le_def split: if_splits sum.splits)

lemma pair_lt_false: "pair_lt p q = Inr False \<Longrightarrow> by_distance q p"
  by (cases "fst p"; cases "fst q")
     (auto simp: pair_lt_def by_distance_def dist_le_def split: if_splits sum.splits)

lemma insert_by_sorted:
  assumes "insert_by pair_lt x ys = Inr zs" "sorted_wrt by_distance ys"
  shows "sorted_wrt by_distance zs"
  using assms
proof (induction ys arbitrary: zs)
  case Nil
  then show ?case by auto
next
  case (Cons y ys)
  obtain t where t: "pair_lt x y = Inr t" using Cons.prems(1) by (auto split: sum.splits)
  show ?case
  proof (cases t)
    case True
    then have zs: "zs = x # y # ys" using Cons.prems(1) t by simp
    have xy: "by_distance x y" using pair_lt_true [of x y] t True by simp
    have "\<forall>z \<in> set ys. by_distance x z"
      using Cons.prems(2) xy dist_le_trans by (auto simp: by_distance_def)
    then show ?thesis using zs xy Cons.prems(2) by simp
  next
    case False
    then obtain zs' where z: "insert_by pair_lt x ys = Inr zs'" "zs = y # zs'"
      using Cons.prems(1) t by (auto split: sum.splits)
    have yx: "by_distance y x" using pair_lt_false [of x y] t False by simp
    have "set zs' = insert x (set ys)"
      using insert_by_mset [OF z(1)] by (metis set_mset_mset set_mset_add_mset_insert)
    then have "\<forall>w \<in> set zs'. by_distance y w"
      using yx Cons.prems(2) by auto
    moreover have "sorted_wrt by_distance zs'" using Cons.IH [OF z(1)] Cons.prems(2) by simp
    ultimately show ?thesis using z(2) by simp
  qed
qed

lemma sorted_onto_sorted:
  "sorted_onto pair_lt xs acc = Inr zs \<Longrightarrow> sorted_wrt by_distance acc
   \<Longrightarrow> sorted_wrt by_distance zs"
proof (induction xs arbitrary: acc)
  case Nil
  then show ?case by simp
next
  case (Cons x xs)
  then obtain acc' where a: "insert_by pair_lt x acc = Inr acc'"
    "sorted_onto pair_lt xs acc' = Inr zs"
    by (auto split: sum.splits)
  show ?case using Cons.IH [OF a(2)] insert_by_sorted [OF a(1) Cons.prems(2)] by simp
qed

lemma py_sorted_pairs:
  "py_sorted pair_lt xs = Inr zs \<Longrightarrow> sorted_wrt by_distance zs"
  using sorted_onto_sorted [of xs "[]" zs] by (simp add: py_sorted_def)

lemma sequence_all2:
  "sequence (map f xs) = Inr ys \<Longrightarrow> list_all2 (\<lambda>x y. f x = Inr y) xs ys"
proof (induction xs arbitrary: ys)
  case Nil
  then show ?case by simp
next
  case (Cons x xs)
  then show ?case by (auto split: sum.splits)
qed

lemma example_ids:
  "items id_a = [(''name'', PStr ''a''), (''resolution'', PInt 200000), (''level'', PInt 1)]"
  "items id_b = [(''name'', PStr ''a''), (''resolution'', PInt 1)]"
  "items id_c = [(''name'', PStr ''a''), (''resolution'', PInt (- 5))]"
  "items id_d = [(''name'', PStr ''a''), (''resolution'', PInt 500), (''level'', PInt 1)]"
  "items id_e = [(''name'', PStr ''a''), (''resolution'', PInt 250), (''level'', PInt 2)]"
  "map fst (id_keys id_a) = [''name'', ''resolution'', ''level'']"
  "map fst (id_keys id_b) = [''name'', ''resolution'', ''level'']"
  "map fst (id_keys id_c) = [''name'', ''resolution'', ''level'']"
  "map fst (id_keys id_d) = [''name'', ''resolution'', ''level'']"
  "map fst (id_keys id_e) = [''name'', ''resolution'', ''level'']"
  by (simp_all add: id_a_def id_b_def id_c_def id_d_def id_e_def make_id_def schema2_def)

lemmas sort_eval =
  sort_dataids_def py_sorted_def dataid_lt_def example_ids generalize_def
  is_number_def is_tuple_def py_cmp.simps key_step_def dict_get_def is_wildcard_def
  allowed_values_def unconstrained_contribution_def big_distance_def pair_lt_def
  dataid_eq_def dict_eq_def query_a_def Let_def

lemma sort_dataids_parts:
  assumes "sort_dataids key_order q dataids = Inr (ids, dists)"
  shows "\<exists>sorted_dataids distances pairs.
           py_sorted dataid_lt dataids = Inr sorted_dataids
         \<and> sequence (map (\<lambda>d. distance_loop q d key_order (Fin 0)) sorted_dataids) = Inr distances
         \<and> py_sorted pair_lt (zip distances sorted_dataids) = Inr pairs
         \<and> ids = map snd pairs \<and> dists = map fst pairs"
  using assms by (auto simp: sort_dataids_def split: sum.splits if_splits)

lemma sort_dataids_result:
  assumes "sort_dataids key_order q dataids = Inr (ids, dists)"
  shows "length ids = length dists"
    and "mset ids = mset dataids"
    and "\<And>i. i < length ids \<Longrightarrow> distance_loop q (ids ! i) key_order (Fin 0) = Inr (dists ! i)"
    and "\<And>i j. i < length dists \<Longrightarrow> j < length dists \<Longrightarrow> dist_less (dists ! j) (dists ! i)
           \<Longrightarrow> j < i"
proof -
  obtain sorted_dataids distances pairs where
    p: "py_sorted dataid_lt dataids = Inr sorted_dataids"
       "sequence (map (\<lambda>d. distance_loop q d key_order (Fin 0)) sorted_dataids) = Inr distances"
       "py_sorted pair_lt (zip distances sorted_dataids) = Inr pairs"
       "ids = map snd pairs" "dists = map fst pairs"
    using sort_dataids_parts [OF assms] by blast
  show "length ids = length dists" using p(4,5) by simp
  have a2: "list_all2 (\<lambda>d y. distance_loop q d key_order (Fin 0) = Inr y) sorted_dataids distances"
    using sequence_all2 [OF p(2)] .
  then have len: "length sorted_dataids = length distances" by (rule list_all2_lengthD)
  have m: "mset pairs = mset (zip distances sorted_dataids)" using py_sorted_mset [OF p(3)] .
  have "mset ids = image_mset snd (mset pairs)" using p(4) by simp
  also have "\<dots> = mset (map snd (zip distances sorted_dataids))" using m by simp
  also have "\<dots> = mset sorted_dataids" using len by simp
  also have "\<dots> = mset dataids" using py_sorted_mset [OF p(1)] .
  finally show "mset ids = mset dataids" .
  have inzip: "distance_loop q d key_order (Fin 0) = Inr y"
    if yd: "(y, d) \<in> set (zip distances sorted_dataids)" for y d
  proof -
    obtain n where n: "n < length distances" "n < length sorted_dataids"
      "distances ! n = y" "sorted_dataids ! n = d"
      using yd by (auto simp: set_zip)
    show ?thesis using list_all2_nthD [OF a2 n(2)] n(3,4) by simp
  qed
  show "distance_loop q (ids ! i) key_order (Fin 0) = Inr (dists ! i)" if "i < length ids" for i
  proof -
    have i: "i < length pairs" using that p(4) by simp
    then have "pairs ! i \<in> set pairs" by simp
    then have "pairs ! i \<in> set (zip distances sorted_dataids)"
      using m by (metis set_mset_mset)
    then have "distance_loop q (snd (pairs ! i)) key_order (Fin 0) = Inr (fst (pairs ! i))"
      using inzip [of "fst (pairs ! i)" "snd (pairs ! i)"] by simp
    then show ?thesis using i p(4,5) by simp
  qed
  have srt: "sorted_wrt by_distance pairs" using py_sorted_pairs [OF p(3)] .
  show "j < i" if "i < length dists" "j < length dists" "dist_less (dists ! j) (dists ! i)" for i j
  proof (rule ccontr)
    assume "\<not> j < i"
    then have "i = j \<or> i < j" by auto
    then show False
    proof
      assume "i = j"
      then show False using that(3) by (cases "dists ! j") simp_all
    next
      assume ij: "i < j"
      have "j < length pairs" using that(2) p(5) by simp
      then have "by_distance (pairs ! i) (pairs ! j)"
        using srt ij by (simp add: sorted_wrt_iff_nth_less)
      then show False using that p(5) ij by (simp add: by_distance_def dist_le_def)
    qed
  qed
qed

text \<open>
  \<^bold>\<open>C1\<close> (as the code has it). When \<^verbatim>\<open>sort_dataids\<close> returns, it returns the candidates, each
  with the distance the inner loop gives it, in ascending order of distance: a candidate
  of strictly larger distance comes later. A candidate that lacks a field the query
  constrains gets the distance accumulated so far plus 100000 and leaves the loop; one whose
  value fails the allowed-value check gets exactly \<^verbatim>\<open>+inf\<close>. So the distance of an
  infeasible candidate whose numbers are non-negative is at least 100000 or \<^verbatim>\<open>+inf\<close>, and
  the distance of a candidate with no missing field, no failed check and no wavelength
  mismatch is finite. (Nothing bounds a feasible candidate's distance by 100000.)
\<close>

theorem sort_dataids_ranking:
  assumes "sort_dataids key_order q dataids = Inr (ids, dists)"
  shows "length ids = length dists \<and> mset ids = mset dataids
     \<and> (\<forall>i < length ids. distance_loop q (ids ! i) key_order (Fin 0) = Inr (dists ! i))
     \<and> (\<forall>i j. i < length dists \<and> j < length dists \<and> dist_less (dists ! j) (dists ! i)
            \<longrightarrow> j < i)
     \<and> (\<forall>d key acc. lacks_field q d key \<longrightarrow>
            key_step q d key acc = Inr (Break (dist_add acc (Fin 100000))))
     \<and> (\<forall>d key acc. fails_check q d key \<longrightarrow> key_step q d key acc = Inr (Break Infty))
     \<and> (\<forall>i < length ids. nonneg_values (ids ! i) \<and> spec_infeasible q (ids ! i) key_order
            \<longrightarrow> dists ! i = Infty \<or> (\<exists>x. dists ! i = Fin x \<and> 100000 \<le> x))
     \<and> (\<forall>i < length ids.
            (\<forall>key \<in> set key_order. \<not> lacks_field q (ids ! i) key
                 \<and> \<not> fails_check q (ids ! i) key \<and> \<not> wavelength_mismatch q (ids ! i) key)
            \<longrightarrow> (\<exists>x. dists ! i = Fin x))"
proof -
  note r = sort_dataids_result [OF assms]
  have a: "\<forall>i < length ids. distance_loop q (ids ! i) key_order (Fin 0) = Inr (dists ! i)"
    using r(3) by blast
  have b: "\<forall>i j. i < length dists \<and> j < length dists \<and> dist_less (dists ! j) (dists ! i)
            \<longrightarrow> j < i"
    using r(4) by blast
  have c: "\<forall>d key acc. lacks_field q d key \<longrightarrow>
            key_step q d key acc = Inr (Break (dist_add acc (Fin 100000)))"
    using key_step_lacks by (simp add: big_distance_def)
  have d: "\<forall>d key acc. fails_check q d key \<longrightarrow> key_step q d key acc = Inr (Break Infty)"
    using key_step_fails by blast
  have e: "dists ! i = Infty \<or> (\<exists>x. dists ! i = Fin x \<and> 100000 \<le> x)"
    if "i < length ids" "nonneg_values (ids ! i)" "spec_infeasible q (ids ! i) key_order" for i
  proof -
    have "dist_le (Fin big_distance) (dists ! i)"
      using distance_loop_infeasible [OF that(2,3) r(3) [OF that(1)]] by simp
    then show ?thesis by (cases "dists ! i") (simp_all add: dist_le_def big_distance_def)
  qed
  have f: "\<exists>x. dists ! i = Fin x"
    if "i < length ids" "\<forall>key \<in> set key_order. \<not> lacks_field q (ids ! i) key
                 \<and> \<not> fails_check q (ids ! i) key \<and> \<not> wavelength_mismatch q (ids ! i) key" for i
    using distance_loop_finite [OF that(2) r(3) [OF that(1)]] .
  have e': "\<forall>i < length ids. nonneg_values (ids ! i) \<and> spec_infeasible q (ids ! i) key_order
            \<longrightarrow> dists ! i = Infty \<or> (\<exists>x. dists ! i = Fin x \<and> 100000 \<le> x)"
    using e by blast
  have f': "\<forall>i < length ids.
            (\<forall>key \<in> set key_order. \<not> lacks_field q (ids ! i) key
                 \<and> \<not> fails_check q (ids ! i) key \<and> \<not> wavelength_mismatch q (ids ! i) key)
            \<longrightarrow> (\<exists>x. dists ! i = Fin x)"
    using f by blast
  show ?thesis by (intro conjI r(1) r(2) a b c d e' f')
qed

theorem sort_dataids_ranking_witness:
  "sort_dataids [''resolution'', ''name'', ''level''] query_a [id_e, id_b, id_d]
     = Inr ([id_d, id_b, id_e], [Fin 501, Fin 100001, Infty])
   \<and> mset [id_d, id_b, id_e] = mset [id_e, id_b, id_d]
   \<and> distance_loop query_a id_b [''resolution'', ''name'', ''level''] (Fin 0) = Inr (Fin 100001)
   \<and> distance_loop query_a id_e [''resolution'', ''name'', ''level''] (Fin 0) = Inr Infty
   \<and> key_step query_a id_b ''level'' (Fin 1) = Inr (Break (Fin 100001))
   \<and> key_step query_a id_e ''level'' (Fin 250) = Inr (Break Infty)"
proof -
  have s: "sort_dataids [''resolution'', ''name'', ''level''] query_a [id_e, id_b, id_d]
     = Inr ([id_d, id_b, id_e], [Fin 501, Fin 100001, Infty])"
    by (simp add: sort_eval)
  note t = sort_dataids_ranking [OF s]
  have m: "mset [id_d, id_b, id_e] = mset [id_e, id_b, id_d]"
    using t [THEN conjunct2, THEN conjunct1] .
  note l = t [THEN conjunct2, THEN conjunct2, THEN conjunct1, rule_format]
  have l1: "distance_loop query_a id_b [''resolution'', ''name'', ''level''] (Fin 0)
      = Inr (Fin 100001)"
    using l [of 1] by simp
  have l2: "distance_loop query_a id_e [''resolution'', ''name'', ''level''] (Fin 0) = Inr Infty"
    using l [of 2] by simp
  have lk: "lacks_field query_a id_b ''level''"
    by (simp add: lacks_field_def constrained_def query_a_def example_ids
        is_wildcard_def dict_get_def py_cmp.simps)
  have k1: "key_step query_a id_b ''level'' (Fin 1) = Inr (Break (Fin 100001))"
    using t [THEN conjunct2, THEN conjunct2, THEN conjunct2, THEN conjunct2, THEN conjunct1,
        rule_format, OF lk, of "Fin 1"]
    by simp
  have fc: "fails_check query_a id_e ''level''"
    by (simp add: fails_check_def constrained_def query_a_def example_ids
        is_wildcard_def dict_get_def py_cmp.simps allowed_values_def)
  have k2: "key_step query_a id_e ''level'' (Fin 250) = Inr (Break Infty)"
    using t [THEN conjunct2, THEN conjunct2, THEN conjunct2, THEN conjunct2, THEN conjunct2,
        THEN conjunct1, rule_format, OF fc, of "Fin 250"] .
  show ?thesis using s m l1 l2 k1 k2 by (intro conjI)
qed

text \<open>A candidate without the field \<^verbatim>\<open>level\<close> that the query constrains gets 100000 or
  100001 (by the order in which the keys are iterated; all six orders are listed) and is
  returned before a feasible candidate whose resolution is 200000; with a negative number
  accumulated first its distance is below 100000.\<close>

theorem sort_dataids_infeasible_counterexample:
  "spec_infeasible query_a id_b [''name'', ''resolution'', ''level'']
   \<and> \<not> spec_infeasible query_a id_a [''name'', ''resolution'', ''level'']
   \<and> sort_dataids [''name'', ''resolution'', ''level''] query_a [id_a, id_b]
       = Inr ([id_b, id_a], [Fin 100001, Fin 200001])
   \<and> sort_dataids [''name'', ''level'', ''resolution''] query_a [id_a, id_b]
       = Inr ([id_b, id_a], [Fin 100000, Fin 200001])
   \<and> sort_dataids [''resolution'', ''name'', ''level''] query_a [id_a, id_b]
       = Inr ([id_b, id_a], [Fin 100001, Fin 200001])
   \<and> sort_dataids [''resolution'', ''level'', ''name''] query_a [id_a, id_b]
       = Inr ([id_b, id_a], [Fin 100001, Fin 200001])
   \<and> sort_dataids [''level'', ''name'', ''resolution''] query_a [id_a, id_b]
       = Inr ([id_b, id_a], [Fin 100000, Fin 200001])
   \<and> sort_dataids [''level'', ''resolution'', ''name''] query_a [id_a, id_b]
       = Inr ([id_b, id_a], [Fin 100000, Fin 200001])
   \<and> spec_infeasible query_a id_c [''resolution'', ''name'', ''level'']
   \<and> distance_loop query_a id_c [''resolution'', ''name'', ''level''] (Fin 0) = Inr (Fin 99995)"
proof -
  have w: "is_wildcard (PStr ''*'')" "\<not> is_wildcard (PStr ''a'')" "\<not> is_wildcard (PInt 1)"
    by (simp_all add: is_wildcard_def py_cmp.simps)
  have a: "spec_infeasible query_a id_b [''name'', ''resolution'', ''level'']"
    by (simp add: spec_infeasible_def lacks_field_def constrained_def query_a_def example_ids
        dict_get_def w)
  have b: "\<not> spec_infeasible query_a id_a [''name'', ''resolution'', ''level'']"
    by (simp add: spec_infeasible_def lacks_field_def fails_check_def constrained_def
        query_a_def example_ids dict_get_def w allowed_values_def py_cmp.simps)
  have c1: "sort_dataids [''name'', ''resolution'', ''level''] query_a [id_a, id_b]
       = Inr ([id_b, id_a], [Fin 100001, Fin 200001])"
    by (simp add: sort_eval)
  have c2: "sort_dataids [''name'', ''level'', ''resolution''] query_a [id_a, id_b]
       = Inr ([id_b, id_a], [Fin 100000, Fin 200001])"
    by (simp add: sort_eval)
  have c3: "sort_dataids [''resolution'', ''name'', ''level''] query_a [id_a, id_b]
       = Inr ([id_b, id_a], [Fin 100001, Fin 200001])"
    by (simp add: sort_eval)
  have c4: "sort_dataids [''resolution'', ''level'', ''name''] query_a [id_a, id_b]
       = Inr ([id_b, id_a], [Fin 100001, Fin 200001])"
    by (simp add: sort_eval)
  have c5: "sort_dataids [''level'', ''name'', ''resolution''] query_a [id_a, id_b]
       = Inr ([id_b, id_a], [Fin 100000, Fin 200001])"
    by (simp add: sort_eval)
  have c6: "sort_dataids [''level'', ''resolution'', ''name''] query_a [id_a, id_b]
       = Inr ([id_b, id_a], [Fin 100000, Fin 200001])"
    by (simp add: sort_eval)
  have e: "spec_infeasible query_a id_c [''resolution'', ''name'', ''level'']"
    by (simp add: spec_infeasible_def lacks_field_def constrained_def query_a_def example_ids
        dict_get_def w)
  have f: "distance_loop query_a id_c [''resolution'', ''name'', ''level''] (Fin 0)
      = Inr (Fin 99995)"
    by (simp add: sort_eval)
  show ?thesis by (intro conjI a b c1 c2 c3 c4 c5 c6 e f)
qed

end
